theory Spec2Isabelle
  imports Main
begin

section \<open>Errors\<close>

text \<open>
  Every exception the modelled code can raise is a value of \<open>py_error\<close>; a computation
  that may raise returns \<open>py_error + 'a\<close>, with \<open>Inl\<close> for the exception.
\<close>

datatype py_error = KeyError | ValueError | TypeError | OverflowError | IndexError

definition and_then :: "py_error + 'a \<Rightarrow> ('a \<Rightarrow> py_error + 'b) \<Rightarrow> py_error + 'b" where
  "and_then m f = (case m of Inl e \<Rightarrow> Inl e | Inr x \<Rightarrow> f x)"

fun map_raising :: "('a \<Rightarrow> py_error + 'b) \<Rightarrow> 'a list \<Rightarrow> py_error + 'b list" where
  "map_raising f [] = Inr []"
| "map_raising f (x # xs) =
     (case f x of
        Inl e \<Rightarrow> Inl e
      | Inr y \<Rightarrow> (case map_raising f xs of Inl e \<Rightarrow> Inl e | Inr ys \<Rightarrow> Inr (y # ys)))"

section \<open>Calendar arithmetic of the datetime library\<close>

text \<open>
  The planner does all of its date arithmetic through Python's \<open>datetime.date\<close>.
  A \<open>date\<close> is a day of the proleptic Gregorian calendar between 0001-01-01 and
  9999-12-31; the library adds and subtracts days on the ordinal of the day (day 1 is
  0001-01-01) and converts between the ordinal and the triple year, month, day with the
  functions transcribed below from the library's reference implementation. A date is
  modelled by its ordinal.
\<close>

type_synonym date = int

definition MAXORDINAL :: int where
  "MAXORDINAL = 3652059"

definition valid_date :: "date \<Rightarrow> bool" where
  "valid_date n = (1 \<le> n \<and> n \<le> MAXORDINAL)"

definition is_leap :: "int \<Rightarrow> bool" where
  "is_leap year = (year mod 4 = 0 \<and> (year mod 100 \<noteq> 0 \<or> year mod 400 = 0))"

definition days_before_year :: "int \<Rightarrow> int" where
  "days_before_year year =
     (let y = year - 1 in y * 365 + y div 4 - y div 100 + y div 400)"

definition DAYS_IN_MONTH :: "int \<Rightarrow> int" where
  "DAYS_IN_MONTH month =
     (if month = 2 then 28
      else if month = 4 \<or> month = 6 \<or> month = 9 \<or> month = 11 then 30
      else 31)"

definition DAYS_BEFORE_MONTH :: "int \<Rightarrow> int" where
  "DAYS_BEFORE_MONTH month =
     (if month = 1 then 0 else if month = 2 then 31 else if month = 3 then 59
      else if month = 4 then 90 else if month = 5 then 120 else if month = 6 then 151
      else if month = 7 then 181 else if month = 8 then 212 else if month = 9 then 243
      else if month = 10 then 273 else if month = 11 then 304 else 334)"

definition days_in_month :: "int \<Rightarrow> int \<Rightarrow> int" where
  "days_in_month year month =
     (if month = 2 \<and> is_leap year then 29 else DAYS_IN_MONTH month)"

definition days_before_month :: "int \<Rightarrow> int \<Rightarrow> int" where
  "days_before_month year month =
     DAYS_BEFORE_MONTH month + (if month > 2 \<and> is_leap year then 1 else 0)"

definition ymd2ord :: "int \<Rightarrow> int \<Rightarrow> int \<Rightarrow> int" where
  "ymd2ord year month day = days_before_year year + days_before_month year month + day"

definition ord2ymd :: "int \<Rightarrow> int \<times> int \<times> int" where
  "ord2ymd n0 =
     (let n = n0 - 1;
          n400 = n div 146097; n = n mod 146097;
          n100 = n div 36524; n = n mod 36524;
          n4 = n div 1461; n = n mod 1461;
          n1 = n div 365; n = n mod 365;
          year = n400 * 400 + 1 + n100 * 100 + n4 * 4 + n1
      in if n1 = 4 \<or> n100 = 4 then (year - 1, 12, 31)
         else
           let leapyear = (n1 = 3 \<and> (n4 \<noteq> 24 \<or> n100 = 3));
               month = (n + 50) div 32;
               preceding = DAYS_BEFORE_MONTH month + (if month > 2 \<and> leapyear then 1 else 0);
               (month, preceding) =
                 (if preceding > n
                  then (month - 1,
                        preceding - (DAYS_IN_MONTH (month - 1)
                                     + (if month - 1 = 2 \<and> leapyear then 1 else 0)))
                  else (month, preceding))
           in (year, month, n - preceding + 1))"


definition timedelta :: "int \<Rightarrow> py_error + int" where
  \<comment> \<open>\<open>timedelta(days=n)\<close>: the library refuses more than 999999999 days either way.\<close>
  "timedelta days = (if - 999999999 \<le> days \<and> days \<le> 999999999 then Inr days else Inl OverflowError)"

definition date_add :: "date \<Rightarrow> int \<Rightarrow> py_error + date" where
  \<comment> \<open>\<open>date + timedelta\<close>: the sum must be a day of the years 1 to 9999.\<close>
  "date_add d delta = (if valid_date (d + delta) then Inr (d + delta) else Inl OverflowError)"

definition date_plus_days :: "date \<Rightarrow> int \<Rightarrow> py_error + date" where
  \<comment> \<open>\<open>d + timedelta(days=n)\<close>\<close>
  "date_plus_days d n = and_then (timedelta n) (date_add d)"

definition date_sub :: "date \<Rightarrow> date \<Rightarrow> int" where
  \<comment> \<open>\<open>d1 - d2\<close>, in days\<close>
  "date_sub d1 d2 = d1 - d2"

definition weekday :: "date \<Rightarrow> nat" where
  \<comment> \<open>Monday is 0\<close>
  "weekday n = nat ((n + 6) mod 7)"

section \<open>Strings\<close>

text \<open>
  Strings are lists of 8-bit characters, read as code points. The character classes
  are those of Python's \<open>str\<close> methods and of the \<open>re\<close> module on such characters.
\<close>

definition code :: "char \<Rightarrow> nat" where
  "code c = of_char c"

definition is_digit :: "char \<Rightarrow> bool" where
  "is_digit c = (48 \<le> code c \<and> code c \<le> 57)"

definition is_space :: "char \<Rightarrow> bool" where
  \<comment> \<open>\<open>str.isspace\<close> and the pattern \<open>\s\<close>\<close>
  "is_space c = (let k = code c in (9 \<le> k \<and> k \<le> 13) \<or> (28 \<le> k \<and> k \<le> 32) \<or> k = 133 \<or> k = 160)"

definition is_upper :: "char \<Rightarrow> bool" where
  "is_upper c = (let k = code c in (65 \<le> k \<and> k \<le> 90) \<or> (192 \<le> k \<and> k \<le> 222 \<and> k \<noteq> 215))"

definition lower_char :: "char \<Rightarrow> char" where
  "lower_char c = (if is_upper c then char_of (code c + 32) else c)"

definition lower :: "string \<Rightarrow> string" where
  "lower s = map lower_char s"

fun starts_with :: "string \<Rightarrow> string \<Rightarrow> bool" where
  \<comment> \<open>\<open>starts_with p s\<close>: \<open>s.startswith(p)\<close>\<close>
  "starts_with [] s = True"
| "starts_with (p # ps) [] = False"
| "starts_with (p # ps) (c # cs) = (p = c \<and> starts_with ps cs)"

fun contains :: "string \<Rightarrow> string \<Rightarrow> bool" where
  \<comment> \<open>\<open>contains sub s\<close>: \<open>sub in s\<close>\<close>
  "contains sub [] = (sub = [])"
| "contains sub (c # cs) = (starts_with sub (c # cs) \<or> contains sub cs)"

fun split_from :: "string \<Rightarrow> string \<Rightarrow> string list" where
  \<comment> \<open>the words of the rest of the string, the first one having started with \<open>cur\<close>\<close>
  "split_from cur [] = (if cur = [] then [] else [cur])"
| "split_from cur (c # cs) =
     (if is_space c then (if cur = [] then split_from [] cs else cur # split_from [] cs)
      else split_from (cur @ [c]) cs)"

definition split :: "string \<Rightarrow> string list" where
  \<comment> \<open>\<open>s.split()\<close>: the maximal runs of characters that are not whitespace\<close>
  "split s = split_from [] s"

definition digit_char :: "nat \<Rightarrow> char" where
  "digit_char d = char_of (48 + d)"

definition digit_value :: "char \<Rightarrow> nat" where
  "digit_value c = code c - 48"

fun digits_of :: "nat \<Rightarrow> string" where
  "digits_of n = (if n < 10 then [digit_char n] else digits_of (n div 10) @ [digit_char (n mod 10)])"

declare digits_of.simps [simp del]

definition str_int :: "int \<Rightarrow> string" where
  \<comment> \<open>\<open>str(i)\<close> of an integer, as an f-string renders it\<close>
  "str_int i = (if i < 0 then CHR ''-'' # digits_of (nat (- i)) else digits_of (nat i))"

definition digits_value :: "string \<Rightarrow> nat" where
  "digits_value s = foldl (\<lambda>acc c. 10 * acc + digit_value c) 0 s"

fun int_body_ok :: "string \<Rightarrow> bool" where
  \<comment> \<open>digits, with single underscores allowed between two digits\<close>
  "int_body_ok [] = False"
| "int_body_ok [c] = is_digit c"
| "int_body_ok (c # d # r) =
     (if is_digit c then (if d = CHR ''_'' then int_body_ok r else int_body_ok (d # r)) else False)"

definition strip :: "string \<Rightarrow> string" where
  "strip s = rev (dropWhile is_space (rev (dropWhile is_space s)))"

definition py_int :: "string \<Rightarrow> py_error + int" where
  \<comment> \<open>\<open>int(s)\<close> of a string: optional whitespace around, optional sign, decimal digits\<close>
  "py_int s =
     (let t = strip s;
          (neg, body) = (case t of
                           [] \<Rightarrow> (False, [])
                         | c # r \<Rightarrow> if c = CHR ''-'' then (True, r)
                                    else if c = CHR ''+'' then (False, r) else (False, t))
      in if int_body_ok body
         then (let v = int (digits_value (filter (\<lambda>c. c \<noteq> CHR ''_'') body))
               in Inr (if neg then - v else v))
         else Inl ValueError)"

section \<open>The fixed date format\<close>

text \<open>
  \<open>strftime('%a %m/%d/%y')\<close> and \<open>strptime(s, '%a %m/%d/%y')\<close> in the C locale.
  Parsing follows the regular expression the library builds from the format: a weekday
  abbreviation in any case, whitespace, a month, a slash, a day, a slash and two digits
  of the year, with nothing left over. The weekday read is not compared with the date;
  a two-digit year up to 68 is in the 2000s, the others in the 1900s.
\<close>

definition day_abbr :: "string list" where
  "day_abbr = [''Mon'', ''Tue'', ''Wed'', ''Thu'', ''Fri'', ''Sat'', ''Sun'']"

definition two_digits :: "int \<Rightarrow> string" where
  "two_digits v = [digit_char (nat (v div 10)), digit_char (nat (v mod 10))]"

definition strftime :: "date \<Rightarrow> string" where
  "strftime n =
     (case ord2ymd n of (y, m, d) \<Rightarrow>
        day_abbr ! weekday n @ '' '' @ two_digits m @ ''/'' @ two_digits d @ ''/''
          @ two_digits (y mod 100))"

definition match_weekday :: "string \<Rightarrow> string option" where
  \<comment> \<open>the group \<open>a\<close>: one of the seven abbreviations, case ignored; returns the rest\<close>
  "match_weekday s =
     (if lower (take 3 s) \<in> set (map lower day_abbr) \<and> length s \<ge> 3 then Some (drop 3 s) else None)"

definition match_spaces :: "string \<Rightarrow> string option" where
  \<comment> \<open>\<open>\s+\<close>\<close>
  "match_spaces s = (case s of [] \<Rightarrow> None
                     | c # r \<Rightarrow> if is_space c then Some (dropWhile is_space r) else None)"

fun match_month :: "string \<Rightarrow> (int \<times> string) option" where
  \<comment> \<open>the group \<open>m\<close>: \<open>1[0-2]|0[1-9]|[1-9]\<close>\<close>
  "match_month (a # b # r) =
     (if a = CHR ''1'' \<and> b \<in> set ''012'' then Some (10 + int (digit_value b), r)
      else if a = CHR ''0'' \<and> is_digit b \<and> b \<noteq> CHR ''0'' then Some (int (digit_value b), r)
      else if is_digit a \<and> a \<noteq> CHR ''0'' then Some (int (digit_value a), b # r)
      else None)"
| "match_month [a] = (if is_digit a \<and> a \<noteq> CHR ''0'' then Some (int (digit_value a), []) else None)"
| "match_month [] = None"

fun match_day :: "string \<Rightarrow> (int \<times> string) option" where
  \<comment> \<open>the group \<open>d\<close>: \<open>3[0-1]|[1-2]\d|0[1-9]|[1-9]| [1-9]\<close>\<close>
  "match_day (a # b # r) =
     (if a = CHR ''3'' \<and> b \<in> set ''01'' then Some (30 + int (digit_value b), r)
      else if a \<in> set ''12'' \<and> is_digit b then Some (10 * int (digit_value a) + int (digit_value b), r)
      else if a = CHR ''0'' \<and> is_digit b \<and> b \<noteq> CHR ''0'' then Some (int (digit_value b), r)
      else if is_digit a \<and> a \<noteq> CHR ''0'' then Some (int (digit_value a), b # r)
      else if a = CHR '' '' \<and> is_digit b \<and> b \<noteq> CHR ''0'' then Some (int (digit_value b), r)
      else None)"
| "match_day [a] = (if is_digit a \<and> a \<noteq> CHR ''0'' then Some (int (digit_value a), []) else None)"
| "match_day [] = None"

fun match_year :: "string \<Rightarrow> (int \<times> string) option" where
  \<comment> \<open>the group \<open>y\<close>: \<open>\d\d\<close>\<close>
  "match_year (a # b # r) =
     (if is_digit a \<and> is_digit b then Some (10 * int (digit_value a) + int (digit_value b), r)
      else None)"
| "match_year _ = None"

definition match_slash :: "string \<Rightarrow> string option" where
  "match_slash s = (case s of [] \<Rightarrow> None | c # r \<Rightarrow> if c = CHR ''/'' then Some r else None)"

definition century :: "int \<Rightarrow> int" where
  \<comment> \<open>the year of a two-digit year\<close>
  "century yy = (if yy \<le> 68 then yy + 2000 else yy + 1900)"

definition strptime :: "string \<Rightarrow> py_error + date" where
  "strptime s =
     (case match_weekday s of None \<Rightarrow> Inl ValueError | Some s1 \<Rightarrow>
      case match_spaces s1 of None \<Rightarrow> Inl ValueError | Some s2 \<Rightarrow>
      case match_month s2 of None \<Rightarrow> Inl ValueError | Some (month, s3) \<Rightarrow>
      case match_slash s3 of None \<Rightarrow> Inl ValueError | Some s4 \<Rightarrow>
      case match_day s4 of None \<Rightarrow> Inl ValueError | Some (day, s5) \<Rightarrow>
      case match_slash s5 of None \<Rightarrow> Inl ValueError | Some s6 \<Rightarrow>
      case match_year s6 of None \<Rightarrow> Inl ValueError | Some (yy, s7) \<Rightarrow>
        if s7 \<noteq> [] then Inl ValueError
        else let year = century yy
             in if 1 \<le> day \<and> day \<le> days_in_month year month
                then Inr (ymd2ord year month day)
                else Inl ValueError)"

definition window_lo :: date where
  "window_lo = ymd2ord 1969 1 1"

definition window_hi :: date where
  "window_hi = ymd2ord 2068 12 31"

definition in_window :: "date \<Rightarrow> bool" where
  \<comment> \<open>the days of the years 1969 to 2068, the years that a two-digit year is read as\<close>
  "in_window d = (window_lo \<le> d \<and> d \<le> window_hi)"

section \<open>Tables\<close>

text \<open>
  A plan is a pandas \<open>DataFrame\<close>: named columns and rows of cells, every row holding
  one cell per column, addressed by position (the default index). A cell is a string,
  an integer or a missing value (\<open>None\<close>, \<open>NaN\<close>).
\<close>

datatype cell = CStr string | CInt int | CNone

record dataframe =
  columns :: "string list"
  rows :: "cell list list"

definition empty_frame :: dataframe where
  \<comment> \<open>\<open>pd.DataFrame()\<close>\<close>
  "empty_frame = \<lparr>columns = [], rows = []\<rparr>"

definition df_empty :: "dataframe \<Rightarrow> bool" where
  \<comment> \<open>\<open>df.empty\<close>: no column or no row\<close>
  "df_empty df = (columns df = [] \<or> rows df = [])"

fun index_of :: "'a \<Rightarrow> 'a list \<Rightarrow> nat option" where
  "index_of x [] = None"
| "index_of x (y # ys) = (if x = y then Some 0 else map_option Suc (index_of x ys))"

definition row_get :: "string list \<Rightarrow> cell list \<Rightarrow> string \<Rightarrow> py_error + cell" where
  \<comment> \<open>\<open>row[col]\<close>\<close>
  "row_get cols r col = (case map_of (zip cols r) col of None \<Rightarrow> Inl KeyError | Some v \<Rightarrow> Inr v)"

definition row_set :: "string list \<Rightarrow> cell list \<Rightarrow> string \<Rightarrow> cell \<Rightarrow> cell list" where
  \<comment> \<open>\<open>df.at[index, col] = v\<close> on the row at \<open>index\<close>, for a column of the table\<close>
  "row_set cols r col v = (case index_of col cols of None \<Rightarrow> r | Some j \<Rightarrow> r[j := v])"

definition df_col :: "dataframe \<Rightarrow> string \<Rightarrow> py_error + cell list" where
  \<comment> \<open>\<open>df[col]\<close>\<close>
  "df_col df col =
     (if col \<in> set (columns df) then map_raising (\<lambda>r. row_get (columns df) r col) (rows df)
      else Inl KeyError)"

definition reindex :: "string list \<Rightarrow> string list \<Rightarrow> cell list \<Rightarrow> cell list" where
  "reindex old new r = map (\<lambda>c. case map_of (zip old r) c of None \<Rightarrow> CNone | Some v \<Rightarrow> v) new"

definition concat_frames :: "dataframe \<Rightarrow> dataframe \<Rightarrow> dataframe" where
  \<comment> \<open>\<open>pd.concat([a, b], ignore_index=True)\<close>: the union of the columns, the rows of
      \<open>a\<close> then those of \<open>b\<close>\<close>
  "concat_frames a b =
     (let cols = columns a @ filter (\<lambda>c. c \<notin> set (columns a)) (columns b)
      in \<lparr>columns = cols,
          rows = map (reindex (columns a) cols) (rows a) @ map (reindex (columns b) cols) (rows b)\<rparr>)"

definition set_column :: "dataframe \<Rightarrow> string \<Rightarrow> cell list \<Rightarrow> dataframe" where
  \<comment> \<open>\<open>df[col] = values\<close>, one value per row\<close>
  "set_column df col vs =
     (case index_of col (columns df) of
        Some j \<Rightarrow> \<lparr>columns = columns df, rows = map (\<lambda>(r, v). r[j := v]) (zip (rows df) vs)\<rparr>
      | None \<Rightarrow> \<lparr>columns = columns df @ [col], rows = map (\<lambda>(r, v). r @ [v]) (zip (rows df) vs)\<rparr>)"

section \<open>The project planner\<close>

text \<open>
  A task and the project information are the dictionaries the analyzer builds; a key
  that may be absent is an option. The planner reads the system clock once, when it is
  constructed (\<open>default_start_date\<close>), and Python's string hash is a parameter:
  it differs from one process to the next.
\<close>

record task =
  t_name :: "string option"
  t_description :: "string option"
  t_priority :: "string option"
  t_estimated_duration :: "int option"

record project_info =
  pi_name :: "string option"
  pi_tasks :: "task list option"

definition plan_columns :: "string list" where
  "plan_columns = [''ID'', ''Name'', ''Active'', ''Task Mode'', ''Duration'', ''Start'', ''Finish'',
                   ''Predecessors'', ''Outline Level'', ''Notes'']"

definition calculate_predecessors :: "(string \<Rightarrow> int) \<Rightarrow> int \<Rightarrow> nat \<Rightarrow> task list \<Rightarrow> py_error + string" where
  "calculate_predecessors hash task_id task_index tasks =
     (if task_index = 0 then Inr []
      else if task_index < length tasks
        then (case t_name (tasks ! task_index) of
                None \<Rightarrow> Inl KeyError
              | Some name \<Rightarrow> if hash name mod 10 < 6 then Inr (str_int (task_id - 1)) else Inr [])
        else Inl IndexError)"

definition determine_outline_level :: "string \<Rightarrow> int" where
  "determine_outline_level task_name =
     (let task_lower = lower task_name
      in if \<exists>word \<in> set [''phase'', ''stage'', ''planning'', ''design'', ''development'',
                            ''testing'', ''deployment'']. contains word task_lower then 1
         else if \<exists>word \<in> set [''setup'', ''configure'', ''create'', ''implement'']. contains word task_lower then 2
         else if \<exists>word \<in> set [''review'', ''validate'', ''test'', ''document'']. contains word task_lower then 3
         else 2)"

definition generate_task_notes :: "task \<Rightarrow> string" where
  "generate_task_notes t =
     (let priority = (case t_priority t of None \<Rightarrow> ''Medium'' | Some p \<Rightarrow> p);
          description = (case t_description t of None \<Rightarrow> [] | Some d \<Rightarrow> d);
          description = (if length description > 100 then take 97 description @ ''...'' else description)
      in ''Priority: '' @ priority @ ''. '' @ description)"

definition task_row :: "int \<Rightarrow> string \<Rightarrow> int \<Rightarrow> date \<Rightarrow> date \<Rightarrow> string \<Rightarrow> int \<Rightarrow> string \<Rightarrow> cell list" where
  "task_row task_id name duration start_date finish_date predecessors outline_level notes =
     [CInt task_id, CStr name, CStr ''Yes'', CStr ''Auto Scheduled'',
      CStr (str_int duration @ '' days''), CStr (strftime start_date), CStr (strftime finish_date),
      CStr predecessors, CInt outline_level, CStr notes]"

fun plan_tasks :: "(string \<Rightarrow> int) \<Rightarrow> task list \<Rightarrow> date \<Rightarrow> (nat \<times> task) list \<Rightarrow> py_error + cell list list" where
  \<comment> \<open>the loop over \<open>enumerate(tasks)\<close>, from \<open>current_date\<close> on\<close>
  "plan_tasks hash tasks current_date [] = Inr []"
| "plan_tasks hash tasks current_date ((i, t) # rest) =
     (let task_id = int i + 1;
          duration = (case t_estimated_duration t of None \<Rightarrow> 5 | Some d \<Rightarrow> d);
          start_date = current_date
      in and_then (date_plus_days start_date duration) (\<lambda>finish_date.
         and_then (calculate_predecessors hash task_id i tasks) (\<lambda>predecessors.
         and_then (case t_name t of None \<Rightarrow> Inl KeyError | Some name \<Rightarrow> Inr name) (\<lambda>name.
         let row = task_row task_id name duration start_date finish_date predecessors
                          (determine_outline_level name) (generate_task_notes t)
         in and_then (date_plus_days start_date (max 1 (duration div 2))) (\<lambda>current_date.
            and_then (plan_tasks hash tasks current_date rest) (\<lambda>plan_data.
            Inr (row # plan_data)))))))"

definition data_frame :: "cell list list \<Rightarrow> dataframe" where
  \<comment> \<open>\<open>pd.DataFrame(plan_data)\<close> of the rows built by the loop\<close>
  "data_frame plan_data =
     (if plan_data = [] then empty_frame else \<lparr>columns = plan_columns, rows = plan_data\<rparr>)"

definition cell_strptime :: "cell \<Rightarrow> py_error + date" where
  "cell_strptime c = (case c of CStr s \<Rightarrow> strptime s | _ \<Rightarrow> Inl TypeError)"

definition duration_days :: "cell \<Rightarrow> py_error + int" where
  \<comment> \<open>\<open>int(d.split()[0])\<close>\<close>
  "duration_days c =
     (case c of
        CStr d \<Rightarrow> (case split d of [] \<Rightarrow> Inl IndexError | w # _ \<Rightarrow> py_int w)
      | _ \<Rightarrow> Inl TypeError)"

definition has_days :: "cell \<Rightarrow> py_error + bool" where
  \<comment> \<open>\<open>'days' in d\<close>\<close>
  "has_days c = (case c of CStr d \<Rightarrow> Inr (contains ''days'' d) | _ \<Rightarrow> Inl TypeError)"

fun total_duration :: "cell list \<Rightarrow> py_error + int" where
  \<comment> \<open>\<open>sum([int(d.split()[0]) for d in df['Duration'] if 'days' in d])\<close>\<close>
  "total_duration [] = Inr 0"
| "total_duration (d # ds) =
     and_then (has_days d) (\<lambda>h.
     and_then (if h then duration_days d else Inr 0) (\<lambda>v.
     and_then (total_duration ds) (\<lambda>s. Inr (v + s))))"

definition min_date :: "date list \<Rightarrow> py_error + date" where
  "min_date ds = (case ds of [] \<Rightarrow> Inl ValueError | d # r \<Rightarrow> Inr (fold min r d))"

definition max_date :: "date list \<Rightarrow> py_error + date" where
  "max_date ds = (case ds of [] \<Rightarrow> Inl ValueError | d # r \<Rightarrow> Inr (fold max r d))"

definition summary_notes :: string where
  "summary_notes = ''This roadmap is intended to guide the project execution.''"

definition create_summary_row :: "string \<Rightarrow> dataframe \<Rightarrow> py_error + dataframe" where
  "create_summary_row project_name df =
     (if df_empty df then Inr empty_frame
      else
        and_then (df_col df ''Duration'') (\<lambda>durations.
        and_then (total_duration durations) (\<lambda>total.
        and_then (df_col df ''Start'') (\<lambda>starts.
        and_then (map_raising cell_strptime starts) (\<lambda>start_dates.
        and_then (df_col df ''Finish'') (\<lambda>finishes.
        and_then (map_raising cell_strptime finishes) (\<lambda>finish_dates.
        and_then (min_date start_dates) (\<lambda>project_start.
        and_then (max_date finish_dates) (\<lambda>project_finish.
        Inr \<lparr>columns = plan_columns,
             rows = [[CInt 0, CStr project_name, CStr ''Yes'', CStr ''Auto Scheduled'',
                      CStr (str_int total @ '' days''), CStr (strftime project_start),
                      CStr (strftime project_finish), CStr [], CInt 0,
                      CStr summary_notes]]\<rparr>)))))))))"

definition create_default_plan :: "date \<Rightarrow> py_error + dataframe" where
  "create_default_plan default_start_date =
     and_then (date_plus_days default_start_date 30) (\<lambda>finish30.
     and_then (date_plus_days default_start_date 5) (\<lambda>finish5.
     Inr \<lparr>columns = plan_columns,
          rows = [[CInt 1, CStr ''Sample Project'', CStr ''Yes'', CStr ''Auto Scheduled'',
                   CStr ''30 days'', CStr (strftime default_start_date), CStr (strftime finish30),
                   CStr [], CInt 1, CStr ''Default project plan generated''],
                  [CInt 2, CStr ''Planning Phase'', CStr ''Yes'', CStr ''Auto Scheduled'',
                   CStr ''5 days'', CStr (strftime default_start_date), CStr (strftime finish5),
                   CStr [], CInt 2, CStr ''Project planning and requirements gathering'']]\<rparr>))"

definition plan_body :: "(string \<Rightarrow> int) \<Rightarrow> date \<Rightarrow> project_info \<Rightarrow> py_error + dataframe" where
  \<comment> \<open>the \<open>try\<close> block of \<open>generate_project_plan\<close>\<close>
  "plan_body hash default_start_date project_info =
     (let tasks = (case pi_tasks project_info of None \<Rightarrow> [] | Some ts \<Rightarrow> ts);
          project_name = (case pi_name project_info of None \<Rightarrow> ''Untitled Project'' | Some n \<Rightarrow> n)
      in and_then (plan_tasks hash tasks default_start_date (enumerate 0 tasks)) (\<lambda>plan_data.
         let df = data_frame plan_data
         in and_then (create_summary_row project_name df) (\<lambda>summary_row.
            let df = concat_frames summary_row df
            in Inr (set_column df ''ID'' (map (\<lambda>i. CInt (int i)) [1 ..< length (rows df) + 1])))))"

definition generate_project_plan :: "(string \<Rightarrow> int) \<Rightarrow> date \<Rightarrow> project_info \<Rightarrow> py_error + dataframe" where
  \<comment> \<open>an exception in the \<open>try\<close> block is reported and the default plan returned\<close>
  "generate_project_plan hash default_start_date project_info =
     (case plan_body hash default_start_date project_info of
        Inr df \<Rightarrow> Inr df
      | Inl e \<Rightarrow> create_default_plan default_start_date)"

definition shift_row :: "string list \<Rightarrow> int \<Rightarrow> cell list \<Rightarrow> py_error + cell list" where
  \<comment> \<open>one turn of the loop of \<open>update_plan_dates\<close>\<close>
  "shift_row cols date_diff row =
     and_then (and_then (row_get cols row ''Start'') cell_strptime) (\<lambda>old_start.
     and_then (and_then (row_get cols row ''Finish'') cell_strptime) (\<lambda>old_finish.
     and_then (date_add old_start date_diff) (\<lambda>new_start.
     and_then (date_add old_finish date_diff) (\<lambda>new_finish.
     Inr (row_set cols (row_set cols row ''Start'' (CStr (strftime new_start)))
            ''Finish'' (CStr (strftime new_finish)))))))"

fun shift_rows :: "string list \<Rightarrow> int \<Rightarrow> cell list list \<Rightarrow> py_error option \<times> cell list list" where
  \<comment> \<open>the loop writes into the table row by row; an exception leaves the loop with the
      rows written so far\<close>
  "shift_rows cols date_diff [] = (None, [])"
| "shift_rows cols date_diff (r # rs) =
     (case shift_row cols date_diff r of
        Inl e \<Rightarrow> (Some e, r # rs)
      | Inr r' \<Rightarrow> (case shift_rows cols date_diff rs of (err, rs') \<Rightarrow> (err, r' # rs')))"

definition update_plan_dates :: "date \<Rightarrow> dataframe \<Rightarrow> py_error option \<times> dataframe" where
  \<comment> \<open>the exception caught and reported, if any, and the table returned\<close>
  "update_plan_dates new_start_date df =
     (if df_empty df then (None, df)
      else case and_then (row_get (columns df) (hd (rows df)) ''Start'') cell_strptime of
             Inl e \<Rightarrow> (Some e, df)
           | Inr current_start \<Rightarrow>
               (case shift_rows (columns df) (date_sub new_start_date current_start) (rows df) of
                  (err, rs) \<Rightarrow> (err, df\<lparr>rows := rs\<rparr>)))"

definition quote :: "string \<Rightarrow> string" where
  "quote s = [CHR 0x27] @ s @ [CHR 0x27]"

fun join :: "string \<Rightarrow> string list \<Rightarrow> string" where
  "join sep [] = []"
| "join sep [x] = x"
| "join sep (x # y # r) = x @ sep @ join sep (y # r)"

definition repr_list :: "string list \<Rightarrow> string" where
  \<comment> \<open>how an f-string renders a list of column names\<close>
  "repr_list xs = ''['' @ join '', '' (map quote xs) @ '']''"

fun check_dates :: "cell list \<Rightarrow> py_error option" where
  \<comment> \<open>\<open>df[date_col].apply(strptime)\<close>: the first exception, if any\<close>
  "check_dates [] = None"
| "check_dates (c # cs) = (case cell_strptime c of Inl e \<Rightarrow> Some e | Inr _ \<Rightarrow> check_dates cs)"

definition date_cells :: "dataframe \<Rightarrow> py_error + cell list" where
  \<comment> \<open>the cells of the columns \<open>Start\<close> and \<open>Finish\<close> that the table has, in the order
      the loop visits them\<close>
  "date_cells df =
     and_then (if ''Start'' \<in> set (columns df) then df_col df ''Start'' else Inr []) (\<lambda>starts.
     and_then (if ''Finish'' \<in> set (columns df) then df_col df ''Finish'' else Inr []) (\<lambda>finishes.
     Inr (starts @ finishes)))"

definition validate_plan :: "dataframe \<Rightarrow> py_error + string list" where
  "validate_plan df =
     (if df_empty df then Inr [''Project plan is empty'']
      else
        let required_cols = [''ID'', ''Name'', ''Duration'', ''Start'', ''Finish''];
            missing_cols = filter (\<lambda>col. col \<notin> set (columns df)) required_cols;
            issues = (if missing_cols \<noteq> [] then [''Missing columns: '' @ repr_list missing_cols] else [])
        in and_then (df_col df ''Name'') (\<lambda>names.
           let issues = issues @ (if CNone \<in> set names then [''Some tasks have empty names''] else [])
           in and_then (date_cells df) (\<lambda>cells.
              case check_dates cells of
                None \<Rightarrow> Inr issues
              | Some ValueError \<Rightarrow> Inr (issues @ [''Invalid date format detected''])
              | Some e \<Rightarrow> Inl e)))"

section \<open>Reading a plan back\<close>

text \<open>
  What a row says, read the way the application reads it: \<open>Start\<close> and \<open>Finish\<close>
  parsed under the fixed date format, \<open>Duration\<close> as the integer before \<open>days\<close>.
\<close>

definition row_start :: "string list \<Rightarrow> cell list \<Rightarrow> py_error + date" where
  "row_start cols r = and_then (row_get cols r ''Start'') cell_strptime"

definition row_finish :: "string list \<Rightarrow> cell list \<Rightarrow> py_error + date" where
  "row_finish cols r = and_then (row_get cols r ''Finish'') cell_strptime"

definition row_duration :: "string list \<Rightarrow> cell list \<Rightarrow> py_error + int" where
  "row_duration cols r = and_then (row_get cols r ''Duration'') duration_days"

definition row_span :: "string list \<Rightarrow> cell list \<Rightarrow> py_error + int" where
  \<comment> \<open>finish minus start, in days\<close>
  "row_span cols r =
     and_then (row_start cols r) (\<lambda>s. and_then (row_finish cols r) (\<lambda>f. Inr (date_sub f s)))"

definition non_summary_rows :: "dataframe \<Rightarrow> cell list list" where
  \<comment> \<open>the summary row is the row of outline level 0\<close>
  "non_summary_rows df =
     filter (\<lambda>r. row_get (columns df) r ''Outline Level'' \<noteq> Inr (CInt 0)) (rows df)"

definition finish_matches :: "string list \<Rightarrow> cell list \<Rightarrow> bool" where
  \<comment> \<open>the three cells parse, and finish = start + duration\<close>
  "finish_matches cols r =
     (case row_start cols r of Inl _ \<Rightarrow> False | Inr s \<Rightarrow>
      case row_finish cols r of Inl _ \<Rightarrow> False | Inr f \<Rightarrow>
      case row_duration cols r of Inl _ \<Rightarrow> False | Inr d \<Rightarrow> f = s + d)"

fun staggered :: "string list \<Rightarrow> cell list list \<Rightarrow> bool" where
  \<comment> \<open>every row starts at least \<open>max(1, d // 2)\<close> days, so at least one day, after the row
      before it, \<open>d\<close> being the duration of that row\<close>
  "staggered cols (r # r' # rs) =
     ((case row_start cols r of Inl _ \<Rightarrow> False | Inr s \<Rightarrow>
       case row_duration cols r of Inl _ \<Rightarrow> False | Inr d \<Rightarrow>
       case row_start cols r' of Inl _ \<Rightarrow> False | Inr s' \<Rightarrow> s + max 1 (d div 2) \<le> s' \<and> s < s')
      \<and> staggered cols (r' # rs))"
| "staggered cols rs = True"

definition task_durations :: "project_info \<Rightarrow> int list" where
  \<comment> \<open>the duration the planner takes for each task, in order\<close>
  "task_durations project_info =
     map (\<lambda>t. case t_estimated_duration t of None \<Rightarrow> 5 | Some d \<Rightarrow> d)
       (case pi_tasks project_info of None \<Rightarrow> [] | Some ts \<Rightarrow> ts)"

fun task_dates :: "date \<Rightarrow> int list \<Rightarrow> (date \<times> date) list" where
  \<comment> \<open>the start and the finish date the planner's loop gives each task\<close>
  "task_dates current_date [] = []"
| "task_dates current_date (d # ds) =
     (current_date, current_date + d) # task_dates (current_date + max 1 (d div 2)) ds"

definition all_named :: "project_info \<Rightarrow> bool" where
  \<comment> \<open>every task of the project has the key \<open>name\<close>\<close>
  "all_named project_info =
     list_all (\<lambda>t. t_name t \<noteq> None) (case pi_tasks project_info of None \<Rightarrow> [] | Some ts \<Rightarrow> ts)"

fun loop_dates :: "date \<Rightarrow> int list \<Rightarrow> date list" where
  \<comment> \<open>the dates the planner's loop computes from \<open>current_date\<close>: for each task its finish
      date and the date the loop moves on to\<close>
  "loop_dates current_date [] = []"
| "loop_dates current_date (d # ds) =
     (current_date + d) # (current_date + max 1 (d div 2))
       # loop_dates (current_date + max 1 (d div 2)) ds"

section \<open>The document analyzer\<close>

text \<open>
  The analyzer's task extraction. Its collaborators outside the repository are
  parameters: the sentence tokenizer (\<open>sent_tokenize\<close>, a pretrained model) and the
  random number generator, a sequence of draws \<open>rnd\<close> read at a position that every
  call advances. The pattern \<open>\w\<close> and \<open>str.title\<close> follow Python on the characters
  of code 0 to 255: the letters, the digits and the numeric characters of Latin-1 are
  word characters, its letters are cased, and the title case of the sharp s (code 223)
  is the two characters \<open>Ss\<close>. The title case of the micro sign (code 181) and of the
  y with diaeresis (code 255) has a code above 255, which an 8-bit character cannot
  hold: \<open>title_char\<close> leaves these two as they are, so a text in which a word of a task
  name begins with one of them is outside the model.
\<close>

definition is_word_char :: "char \<Rightarrow> bool" where
  \<comment> \<open>the pattern \<open>\w\<close>: the underscore and the characters that \<open>str.isalnum\<close> accepts\<close>
  "is_word_char c =
     (let k = code c
      in (48 \<le> k \<and> k \<le> 57) \<or> (65 \<le> k \<and> k \<le> 90) \<or> k = 95 \<or> (97 \<le> k \<and> k \<le> 122)
         \<or> k = 170 \<or> k = 178 \<or> k = 179 \<or> k = 181 \<or> k = 185 \<or> k = 186
         \<or> (188 \<le> k \<and> k \<le> 190) \<or> (192 \<le> k \<and> k \<le> 214) \<or> (216 \<le> k \<and> k \<le> 246)
         \<or> (248 \<le> k \<and> k \<le> 255))"

definition is_cased :: "char \<Rightarrow> bool" where
  \<comment> \<open>the cased characters: the letters that have a case, and the two ordinal indicators\<close>
  "is_cased c =
     (let k = code c
      in (65 \<le> k \<and> k \<le> 90) \<or> (97 \<le> k \<and> k \<le> 122) \<or> k = 170 \<or> k = 181 \<or> k = 186
         \<or> (192 \<le> k \<and> k \<le> 214) \<or> (216 \<le> k \<and> k \<le> 246) \<or> (248 \<le> k \<and> k \<le> 255))"

definition title_char :: "char \<Rightarrow> string" where
  \<comment> \<open>the title case of a character\<close>
  "title_char c =
     (let k = code c
      in if (97 \<le> k \<and> k \<le> 122) \<or> (224 \<le> k \<and> k \<le> 246) \<or> (248 \<le> k \<and> k \<le> 254)
         then [char_of (k - 32)]
         else if k = 223 then ''Ss'' else [c])"

fun title_from :: "bool \<Rightarrow> string \<Rightarrow> string" where
  \<comment> \<open>\<open>str.title\<close>: a character after a cased character is lowered, any other character
      is put in title case\<close>
  "title_from previous_is_cased [] = []"
| "title_from previous_is_cased (c # cs) =
     (if previous_is_cased then [lower_char c] else title_char c) @ title_from (is_cased c) cs"

definition title :: "string \<Rightarrow> string" where
  "title s = title_from False s"

fun collapse_from :: "bool \<Rightarrow> string \<Rightarrow> string" where
  \<comment> \<open>\<open>re.sub(r'\s+', ' ', text)\<close>; the flag says that the run of whitespace has begun\<close>
  "collapse_from in_run [] = []"
| "collapse_from in_run (c # cs) =
     (if is_space c
      then (if in_run then collapse_from True cs else CHR '' '' # collapse_from True cs)
      else c # collapse_from False cs)"

definition clean_text :: "string \<Rightarrow> string" where
  "clean_text text =
     (let text = collapse_from False text;
          text = filter (\<lambda>c. is_word_char c \<or> is_space c \<or> c \<in> set ''.,!?;:-()'') text
      in strip text)"

definition task_keywords :: "string list" where
  "task_keywords =
     [''implement'', ''develop'', ''create'', ''build'', ''design'', ''test'', ''deploy'',
      ''configure'', ''setup'', ''install'', ''analyze'', ''review'', ''prepare'',
      ''execute'', ''complete'', ''finish'', ''deliver'', ''validate'', ''verify'']"

definition generate_task_name :: "string \<Rightarrow> string \<Rightarrow> string option" where
  "generate_task_name sentence keyword =
     (let words = split sentence
      in case index_of True (map (\<lambda>word. contains (lower keyword) (lower word)) words) of
           None \<Rightarrow> None
         | Some keyword_index \<Rightarrow>
             let start_idx = keyword_index - 1;
                 end_idx = min (length words) (keyword_index + 4);
                 task_words = take (end_idx - start_idx) (drop start_idx words);
                 task_name = join '' '' task_words;
                 task_name = map (\<lambda>c. if is_word_char c \<or> is_space c then c else CHR '' '') task_name;
                 task_name = join '' '' (split task_name)
             in if task_name \<noteq> [] then Some (title task_name) else None)"

definition estimate_priority :: "(nat \<Rightarrow> nat) \<Rightarrow> nat \<Rightarrow> string \<Rightarrow> string \<times> nat" where
  "estimate_priority rnd k sentence =
     (let sentence_lower = lower sentence
      in if \<exists>word \<in> set [''critical'', ''urgent'', ''important'', ''key'', ''essential''].
              contains word sentence_lower
         then (''High'', k)
         else ([''Medium'', ''Low''] ! (rnd k mod 2), k + 1))"

fun find_duration :: "string \<Rightarrow> string \<Rightarrow> nat option" where
  \<comment> \<open>the number of the first match of \<open>(\d+)\s*(unit|units)\<close>\<close>
  "find_duration unit [] = None"
| "find_duration unit (c # cs) =
     (if is_digit c \<and> starts_with unit (dropWhile is_space (dropWhile is_digit cs))
      then Some (digits_value (c # takeWhile is_digit cs))
      else find_duration unit cs)"

definition estimate_duration :: "(nat \<Rightarrow> nat) \<Rightarrow> nat \<Rightarrow> string \<Rightarrow> int \<times> nat" where
  "estimate_duration rnd k sentence =
     (let s = lower sentence
      in case find_duration ''day'' s of
           Some num \<Rightarrow> (min (int num) 30, k)
         | None \<Rightarrow>
        (case find_duration ''week'' s of
           Some num \<Rightarrow> (min (int num * 7) 30, k)
         | None \<Rightarrow>
        (case find_duration ''month'' s of
           Some num \<Rightarrow> (min (int num * 30) 30, k)
         | None \<Rightarrow> (1 + int (rnd k mod 10), k + 1))))"

definition first_keyword :: "string \<Rightarrow> string option" where
  \<comment> \<open>the keyword at which the loop over the keywords breaks\<close>
  "first_keyword sentence =
     find (\<lambda>keyword. contains keyword (lower sentence) \<and> length (split sentence) > 3) task_keywords"

fun scan_sentences :: "(nat \<Rightarrow> nat) \<Rightarrow> nat \<Rightarrow> string list \<Rightarrow> task list" where
  \<comment> \<open>the loop over the sentences\<close>
  "scan_sentences rnd k [] = []"
| "scan_sentences rnd k (sentence # rest) =
     (case first_keyword sentence of
        None \<Rightarrow> scan_sentences rnd k rest
      | Some keyword \<Rightarrow>
          (case generate_task_name sentence keyword of
             None \<Rightarrow> scan_sentences rnd k rest
           | Some task_name \<Rightarrow>
               if length task_name < 100
               then (case estimate_priority rnd k sentence of (priority, k1) \<Rightarrow>
                     case estimate_duration rnd k1 sentence of (duration, k2) \<Rightarrow>
                       \<lparr>t_name = Some task_name, t_description = Some (take 200 sentence),
                        t_priority = Some priority, t_estimated_duration = Some duration\<rparr>
                       # scan_sentences rnd k2 rest)
               else scan_sentences rnd k rest))"

definition generate_default_tasks :: "task list" where
  "generate_default_tasks =
     [\<lparr>t_name = Some ''Project Planning'', t_description = Some ''Plan project scope and timeline'',
       t_priority = Some ''High'', t_estimated_duration = Some 3\<rparr>,
      \<lparr>t_name = Some ''Requirements Analysis'', t_description = Some ''Analyze project requirements'',
       t_priority = Some ''High'', t_estimated_duration = Some 5\<rparr>,
      \<lparr>t_name = Some ''System Design'', t_description = Some ''Design system architecture'',
       t_priority = Some ''Medium'', t_estimated_duration = Some 7\<rparr>,
      \<lparr>t_name = Some ''Development Phase 1'', t_description = Some ''Initial development phase'',
       t_priority = Some ''High'', t_estimated_duration = Some 10\<rparr>,
      \<lparr>t_name = Some ''Testing'', t_description = Some ''Test system functionality'',
       t_priority = Some ''High'', t_estimated_duration = Some 5\<rparr>,
      \<lparr>t_name = Some ''Deployment'', t_description = Some ''Deploy to production'',
       t_priority = Some ''Medium'', t_estimated_duration = Some 2\<rparr>]"

definition extract_tasks :: "(string \<Rightarrow> string list) \<Rightarrow> (nat \<Rightarrow> nat) \<Rightarrow> nat \<Rightarrow> string \<Rightarrow> task list" where
  "extract_tasks sent_tokenize rnd k text =
     (let tasks = scan_sentences rnd k (sent_tokenize text);
          tasks = (if tasks = [] then generate_default_tasks else tasks)
      in take 15 tasks)"

definition project_tasks :: "(string \<Rightarrow> string list) \<Rightarrow> (nat \<Rightarrow> nat) \<Rightarrow> nat \<Rightarrow> string \<Rightarrow> task list" where
  \<comment> \<open>the entry \<open>tasks\<close> of the result of \<open>extract_project_info\<close>\<close>
  "project_tasks sent_tokenize rnd k text = extract_tasks sent_tokenize rnd k (clean_text text)"

fun sentences_from :: "string \<Rightarrow> string \<Rightarrow> string list" where
  \<comment> \<open>a sentence ends at a full stop, an exclamation or a question mark that whitespace
      or the end of the text follows; whitespace between sentences is dropped\<close>
  "sentences_from cur [] = (if cur = [] then [] else [cur])"
| "sentences_from cur (c # cs) =
     (if cur = [] \<and> is_space c then sentences_from [] cs
      else if c \<in> set ''.!?'' \<and> (case cs of [] \<Rightarrow> True | d # _ \<Rightarrow> is_space d)
        then (cur @ [c]) # sentences_from [] cs
        else sentences_from (cur @ [c]) cs)"

definition plain_sent_tokenize :: "string \<Rightarrow> string list" where
  \<comment> \<open>what the sentence tokenizer returns on plain prose without abbreviations\<close>
  "plain_sent_tokenize text = sentences_from [] text"

definition scenario_text :: string where
  "scenario_text =
     ''We will implement the login module in 5 days. Then we will test the module for 2 days.''"

section \<open>Inputs of the scenarios\<close>

definition constant_hash :: "string \<Rightarrow> int" where
  \<comment> \<open>a string hash under which no task depends on the one before\<close>
  "constant_hash name = 7"

definition constant_draws :: "nat \<Rightarrow> nat" where
  "constant_draws k = 0"

definition design_task :: task where
  "design_task = \<lparr>t_name = Some ''Design API'', t_description = Some ''We design the API in 5 days.'',
                  t_priority = Some ''High'', t_estimated_duration = Some 5\<rparr>"

definition docs_task :: task where
  "docs_task = \<lparr>t_name = Some ''Write docs'', t_description = Some ''Then we write the docs.'',
                t_priority = Some ''Low'', t_estimated_duration = Some 4\<rparr>"

definition auth_project :: project_info where
  "auth_project = \<lparr>pi_name = Some ''Auth'', pi_tasks = Some [design_task, docs_task]\<rparr>"

definition auth_plan :: dataframe where
  \<comment> \<open>the plan of \<open>auth_project\<close> started on Monday 2025-11-03\<close>
  "auth_plan =
     \<lparr>columns = plan_columns,
      rows = [[CInt 1, CStr ''Auth'', CStr ''Yes'', CStr ''Auto Scheduled'', CStr ''9 days'',
               CStr ''Mon 11/03/25'', CStr ''Sun 11/09/25'', CStr [], CInt 0,
               CStr ''This roadmap is intended to guide the project execution.''],
              [CInt 2, CStr ''Design API'', CStr ''Yes'', CStr ''Auto Scheduled'', CStr ''5 days'',
               CStr ''Mon 11/03/25'', CStr ''Sat 11/08/25'', CStr [], CInt 1,
               CStr ''Priority: High. We design the API in 5 days.''],
              [CInt 3, CStr ''Write docs'', CStr ''Yes'', CStr ''Auto Scheduled'', CStr ''4 days'',
               CStr ''Wed 11/05/25'', CStr ''Sun 11/09/25'', CStr [], CInt 2,
               CStr ''Priority: Low. Then we write the docs.'']]\<rparr>"

definition year_end_summary_row :: "cell list" where
  "year_end_summary_row =
     [CInt 1, CStr ''Auth'', CStr ''Yes'', CStr ''Auto Scheduled'', CStr ''9 days'',
      CStr ''Wed 01/01/69'', CStr ''Sun 01/05/69'', CStr [], CInt 0,
      CStr ''This roadmap is intended to guide the project execution.'']"

definition year_end_design_row :: "cell list" where
  "year_end_design_row =
     [CInt 2, CStr ''Design API'', CStr ''Yes'', CStr ''Auto Scheduled'', CStr ''5 days'',
      CStr ''Sun 12/30/68'', CStr ''Fri 01/04/69'', CStr [], CInt 1,
      CStr ''Priority: High. We design the API in 5 days.'']"

definition year_end_docs_row :: "cell list" where
  "year_end_docs_row =
     [CInt 3, CStr ''Write docs'', CStr ''Yes'', CStr ''Auto Scheduled'', CStr ''4 days'',
      CStr ''Tue 01/01/69'', CStr ''Sat 01/05/69'', CStr [], CInt 2,
      CStr ''Priority: Low. Then we write the docs.'']"

definition new_year_summary_row :: "cell list" where
  "new_year_summary_row =
     [CInt 1, CStr ''Auth'', CStr ''Yes'', CStr ''Auto Scheduled'', CStr ''9 days'',
      CStr ''Thu 01/02/69'', CStr ''Mon 01/06/69'', CStr [], CInt 0,
      CStr ''This roadmap is intended to guide the project execution.'']"

definition new_year_design_row :: "cell list" where
  "new_year_design_row =
     [CInt 2, CStr ''Design API'', CStr ''Yes'', CStr ''Auto Scheduled'', CStr ''5 days'',
      CStr ''Mon 12/31/68'', CStr ''Sat 01/05/69'', CStr [], CInt 1,
      CStr ''Priority: High. We design the API in 5 days.'']"

definition new_year_docs_row :: "cell list" where
  "new_year_docs_row =
     [CInt 3, CStr ''Write docs'', CStr ''Yes'', CStr ''Auto Scheduled'', CStr ''4 days'',
      CStr ''Wed 01/02/69'', CStr ''Sun 01/06/69'', CStr [], CInt 2,
      CStr ''Priority: Low. Then we write the docs.'']"

definition implement_sentence :: string where
  "implement_sentence = ''We will implement the login module in 5 days.''"

definition test_sentence :: string where
  "test_sentence = ''Then we will test the module for 2 days.''"

definition unnamed_task :: task where
  \<comment> \<open>a task without the key \<open>name\<close>\<close>
  "unnamed_task = \<lparr>t_name = None, t_description = Some ''Then we write the docs.'',
                   t_priority = Some ''Low'', t_estimated_duration = Some 4\<rparr>"

definition unnamed_project :: project_info where
  "unnamed_project = \<lparr>pi_name = Some ''Auth'', pi_tasks = Some [design_task, unnamed_task]\<rparr>"

definition sample_project_row :: "cell list" where
  \<comment> \<open>the rows of the default plan made on Monday 2025-11-03\<close>
  "sample_project_row =
     [CInt 1, CStr ''Sample Project'', CStr ''Yes'', CStr ''Auto Scheduled'', CStr ''30 days'',
      CStr ''Mon 11/03/25'', CStr ''Wed 12/03/25'', CStr [], CInt 1,
      CStr ''Default project plan generated'']"

definition planning_phase_row :: "cell list" where
  "planning_phase_row =
     [CInt 2, CStr ''Planning Phase'', CStr ''Yes'', CStr ''Auto Scheduled'', CStr ''5 days'',
      CStr ''Mon 11/03/25'', CStr ''Sat 11/08/25'', CStr [], CInt 2,
      CStr ''Project planning and requirements gathering'']"

definition december_summary_row :: "cell list" where
  \<comment> \<open>the rows of the plan of \<open>auth_project\<close> started on Monday 2068-12-10\<close>
  "december_summary_row =
     [CInt 1, CStr ''Auth'', CStr ''Yes'', CStr ''Auto Scheduled'', CStr ''9 days'',
      CStr ''Mon 12/10/68'', CStr ''Sun 12/16/68'', CStr [], CInt 0,
      CStr ''This roadmap is intended to guide the project execution.'']"

definition december_design_row :: "cell list" where
  "december_design_row =
     [CInt 2, CStr ''Design API'', CStr ''Yes'', CStr ''Auto Scheduled'', CStr ''5 days'',
      CStr ''Mon 12/10/68'', CStr ''Sat 12/15/68'', CStr [], CInt 1,
      CStr ''Priority: High. We design the API in 5 days.'']"

definition december_docs_row :: "cell list" where
  "december_docs_row =
     [CInt 3, CStr ''Write docs'', CStr ''Yes'', CStr ''Auto Scheduled'', CStr ''4 days'',
      CStr ''Wed 12/12/68'', CStr ''Sun 12/16/68'', CStr [], CInt 2,
      CStr ''Priority: Low. Then we write the docs.'']"

section \<open>Properties of the calendar\<close>

lemma mod_via_div: "(x::int) mod k = x - k * (x div k)"
  by (simp add: minus_mult_div_eq_mod)

lemma month_estimate_range:
  "0 \<le> n \<Longrightarrow> n \<le> 364 \<Longrightarrow> 1 \<le> (n + 50) div 32 \<and> (n + 50) div 32 \<le> (12::int)"
  by linarith

lemma month_estimate_bounds:
  "32 * ((n + 50) div 32) - 50 \<le> (n::int) \<and> n \<le> 32 * ((n + 50) div 32) - 19"
  by linarith

lemma month_cases:
  "1 \<le> (k::int) \<Longrightarrow> k \<le> 12 \<Longrightarrow>
     k = 1 \<or> k = 2 \<or> k = 3 \<or> k = 4 \<or> k = 5 \<or> k = 6 \<or> k = 7 \<or> k = 8
      \<or> k = 9 \<or> k = 10 \<or> k = 11 \<or> k = 12"
  by arith

lemma month_too_large:
  assumes "0 \<le> n" "n \<le> 364" "32 * k - 50 \<le> n" "n \<le> 32 * k - 19"
    and "k = 1 \<or> k = 2 \<or> k = 3 \<or> k = 4 \<or> k = 5 \<or> k = 6 \<or> k = 7 \<or> k = 8
      \<or> k = 9 \<or> k = 10 \<or> k = 11 \<or> k = 12"
    and "DAYS_BEFORE_MONTH k + (if k > 2 \<and> lp then 1 else 0) > n"
  shows "1 \<le> k - 1 \<and> k - 1 \<le> 12
     \<and> DAYS_BEFORE_MONTH k + (if k > 2 \<and> lp then 1 else 0)
           - (DAYS_IN_MONTH (k - 1) + (if k - 1 = 2 \<and> lp then 1 else 0))
         = DAYS_BEFORE_MONTH (k - 1) + (if k - 1 > 2 \<and> lp then 1 else 0)
     \<and> DAYS_BEFORE_MONTH (k - 1) + (if k - 1 > 2 \<and> lp then 1 else 0) \<le> n
     \<and> n < DAYS_BEFORE_MONTH (k - 1) + (if k - 1 > 2 \<and> lp then 1 else 0)
             + (if k - 1 = 2 \<and> lp then 29 else DAYS_IN_MONTH (k - 1))"
  using assms(5)
  apply (elim disjE)
  using assms(1-4,6)
  by (simp_all add: DAYS_BEFORE_MONTH_def DAYS_IN_MONTH_def split: if_splits)

lemma month_exact:
  assumes "0 \<le> n" "n \<le> 364" "32 * k - 50 \<le> n" "n \<le> 32 * k - 19"
    and "k = 1 \<or> k = 2 \<or> k = 3 \<or> k = 4 \<or> k = 5 \<or> k = 6 \<or> k = 7 \<or> k = 8
      \<or> k = 9 \<or> k = 10 \<or> k = 11 \<or> k = 12"
    and "\<not> DAYS_BEFORE_MONTH k + (if k > 2 \<and> lp then 1 else 0) > n"
  shows "n < DAYS_BEFORE_MONTH k + (if k > 2 \<and> lp then 1 else 0)
             + (if k = 2 \<and> lp then 29 else DAYS_IN_MONTH k)"
  using assms(5)
  apply (elim disjE)
  using assms(1-4,6)
  by (simp_all add: DAYS_BEFORE_MONTH_def DAYS_IN_MONTH_def split: if_splits)

lemma year_split:
  fixes n :: int
  assumes "0 \<le> n"
    and "a = n div 146097" and "r1 = n mod 146097"
    and "b = r1 div 36524" and "r2 = r1 mod 36524"
    and "c = r2 div 1461" and "r3 = r2 mod 1461"
    and "e = r3 div 365" and "r4 = r3 mod 365"
  shows "n = 146097 * a + 36524 * b + 1461 * c + 365 * e + r4"
    and "0 \<le> a" and "0 \<le> b" and "b \<le> 4" and "0 \<le> c" and "c \<le> 24" and "0 \<le> e" and "e \<le> 4"
    and "0 \<le> r4" and "r4 \<le> 364"
    and "b = 4 \<Longrightarrow> c = 0 \<and> e = 0 \<and> r4 = 0"
    and "e = 4 \<Longrightarrow> r4 = 0 \<and> (c \<le> 23 \<or> b = 3)"
proof -
  have r1: "0 \<le> r1" "r1 < 146097" "n = 146097 * a + r1" using assms(2,3) by simp_all
  have r2: "0 \<le> r2" "r2 < 36524" "r1 = 36524 * b + r2" using assms(4,5) by simp_all
  have r3: "0 \<le> r3" "r3 < 1461" "r2 = 1461 * c + r3" using assms(6,7) by simp_all
  have r4: "0 \<le> r4" "r4 < 365" "r3 = 365 * e + r4" using assms(8,9) by simp_all
  show "n = 146097 * a + 36524 * b + 1461 * c + 365 * e + r4" using r1 r2 r3 r4 by linarith
  show "0 \<le> a" using assms(1,2) by simp
  show b0: "0 \<le> b" using r1 r2 by linarith
  show "b \<le> 4" using r1 r2 by linarith
  show c0: "0 \<le> c" using r2 r3 by linarith
  show "c \<le> 24" using r2 r3 by linarith
  show e0: "0 \<le> e" using r3 r4 by linarith
  show "e \<le> 4" using r3 r4 by linarith
  show "0 \<le> r4" by fact
  show "r4 \<le> 364" using r4 by linarith
  show "b = 4 \<Longrightarrow> c = 0 \<and> e = 0 \<and> r4 = 0" using r1 r2 r3 r4 c0 e0 by linarith
  show "e = 4 \<Longrightarrow> r4 = 0 \<and> (c \<le> 23 \<or> b = 3)" using r1 r2 r3 r4 c0 e0 b0 by linarith
qed

lemma days_before_year_split:
  fixes a b c e :: int
  assumes "0 \<le> b" "b \<le> 3" "0 \<le> c" "c \<le> 24" "0 \<le> e" "e \<le> 3"
  shows "days_before_year (a * 400 + 1 + b * 100 + c * 4 + e)
           = 146097 * a + 36524 * b + 1461 * c + 365 * e"
proof -
  define Y where "Y = a * 400 + b * 100 + c * 4 + e"
  have d4: "Y div 4 = 100 * a + 25 * b + c" unfolding Y_def using assms by linarith
  have d100: "Y div 100 = 4 * a + b" unfolding Y_def using assms by linarith
  have d400: "Y div 400 = a" unfolding Y_def using assms by linarith
  have eq: "a * 400 + 1 + b * 100 + c * 4 + e - 1 = Y" unfolding Y_def by simp
  show ?thesis
    unfolding days_before_year_def Let_def eq d4 d100 d400 unfolding Y_def by simp
qed

lemma is_leap_split:
  fixes a b c e :: int
  assumes "0 \<le> b" "b \<le> 3" "0 \<le> c" "c \<le> 24" "0 \<le> e" "e \<le> 3"
  shows "is_leap (a * 400 + 1 + b * 100 + c * 4 + e) = (e = 3 \<and> (c \<noteq> 24 \<or> b = 3))"
proof -
  define X where "X = a * 400 + 1 + b * 100 + c * 4 + e"
  have d4: "e = 3 \<Longrightarrow> X div 4 = 100 * a + 25 * b + c + 1"
    "e \<noteq> 3 \<Longrightarrow> X div 4 = 100 * a + 25 * b + c"
    unfolding X_def using assms by linarith+
  have d100: "e = 3 \<and> c = 24 \<Longrightarrow> X div 100 = 4 * a + b + 1"
    "\<not> (e = 3 \<and> c = 24) \<Longrightarrow> X div 100 = 4 * a + b"
    unfolding X_def using assms by linarith+
  have d400: "e = 3 \<and> c = 24 \<and> b = 3 \<Longrightarrow> X div 400 = a + 1"
     "\<not> (e = 3 \<and> c = 24 \<and> b = 3) \<Longrightarrow> X div 400 = a"
    unfolding X_def using assms by linarith+
  have m4: "X mod 4 = 0 \<longleftrightarrow> e = 3"
    unfolding mod_via_div[of X 4] using d4 assms unfolding X_def by (cases "e = 3") auto
  have m100: "X mod 100 = 0 \<longleftrightarrow> e = 3 \<and> c = 24"
    unfolding mod_via_div[of X 100] using d100 assms unfolding X_def by (cases "e = 3 \<and> c = 24") auto
  have m400: "X mod 400 = 0 \<longleftrightarrow> e = 3 \<and> c = 24 \<and> b = 3"
    unfolding mod_via_div[of X 400] using d400 assms unfolding X_def by (cases "e = 3 \<and> c = 24 \<and> b = 3") auto
  show ?thesis
    unfolding X_def[symmetric] is_leap_def m4 m100 m400 by blast
qed

lemma ord2ymd_props:
  assumes n0: "1 \<le> n0" and res: "ord2ymd n0 = (y, m, d)"
  shows "1 \<le> m \<and> m \<le> 12 \<and> 1 \<le> d \<and> d \<le> days_in_month y m \<and> ymd2ord y m d = n0"
proof -
  define n where "n = n0 - 1"
  define a where "a = n div 146097"
  define r1 where "r1 = n mod 146097"
  define b where "b = r1 div 36524"
  define r2 where "r2 = r1 mod 36524"
  define c where "c = r2 div 1461"
  define r3 where "r3 = r2 mod 1461"
  define e where "e = r3 div 365"
  define r4 where "r4 = r3 mod 365"
  define year where "year = a * 400 + 1 + b * 100 + c * 4 + e"
  define lp where "lp = (e = 3 \<and> (c \<noteq> 24 \<or> b = 3))"
  define k where "k = (r4 + 50) div 32"
  define P where "P = DAYS_BEFORE_MONTH k + (if k > 2 \<and> lp then 1 else 0)"
  have "0 \<le> n" using n0 by (simp add: n_def)
  note ys = year_split[OF this a_def r1_def b_def r2_def c_def r3_def e_def r4_def]
  have unfolded: "ord2ymd n0 =
     (if e = 4 \<or> b = 4 then (year - 1, 12, 31)
      else case (if P > r4
        then (k - 1, P - (DAYS_IN_MONTH (k - 1) + (if k - 1 = 2 \<and> lp then 1 else 0)))
        else (k, P)) of (month, preceding) \<Rightarrow> (year, month, r4 - preceding + 1))"
    by (simp only: ord2ymd_def Let_def n_def[symmetric] a_def[symmetric] r1_def[symmetric]
        b_def[symmetric] r2_def[symmetric] c_def[symmetric] r3_def[symmetric] e_def[symmetric]
        r4_def[symmetric] year_def[symmetric] lp_def[symmetric] k_def[symmetric] P_def[symmetric])
  show ?thesis
  proof (cases "e = 4 \<or> b = 4")
    case True
    with unfolded res have ymd: "y = year - 1" "m = 12" "d = 31" by simp_all
    have "days_before_year y = n - 365 \<and> is_leap y"
    proof (cases "b = 4")
      case True
      with ys have z: "c = 0" "e = 0" "r4 = 0" by simp_all
      have "y = a * 400 + 1 + 3 * 100 + 24 * 4 + 3"
        unfolding ymd year_def z True by simp
      then show ?thesis
        using days_before_year_split[of 3 24 3 a] is_leap_split[of 3 24 3 a] ys(1) z True
        by simp
    next
      case False
      with True ys have z: "e = 4" "r4 = 0" "c \<le> 23 \<or> b = 3" "b \<le> 3" by simp_all
      have "y = a * 400 + 1 + b * 100 + c * 4 + 3"
        unfolding ymd year_def z by simp
      then show ?thesis
        using days_before_year_split[of b c 3 a] is_leap_split[of b c 3 a] ys z
        by auto
    qed
    then show ?thesis
      unfolding ymd ymd2ord_def days_before_month_def days_in_month_def
      by (simp add: DAYS_BEFORE_MONTH_def DAYS_IN_MONTH_def n_def)
  next
    case False
    with ys have be: "b \<le> 3" "e \<le> 3" by simp_all
    have dby: "days_before_year year = n - r4"
      unfolding year_def using days_before_year_split[of b c e a] ys be by simp
    have leap: "is_leap year = lp"
      unfolding year_def lp_def using is_leap_split[of b c e a] ys be by simp
    have kr: "1 \<le> k \<and> k \<le> 12" "32 * k - 50 \<le> r4 \<and> r4 \<le> 32 * k - 19"
      unfolding k_def using month_estimate_range[of r4] month_estimate_bounds[of r4] ys by simp_all
    note kc = month_cases[of k]
    show ?thesis
    proof (cases "P > r4")
      case True
      with unfolded res False have ymd: "y = year" "m = k - 1"
        "d = r4 - (P - (DAYS_IN_MONTH (k - 1) + (if k - 1 = 2 \<and> lp then 1 else 0))) + 1"
        by simp_all
      have "1 \<le> k - 1 \<and> k - 1 \<le> 12
        \<and> P - (DAYS_IN_MONTH (k - 1) + (if k - 1 = 2 \<and> lp then 1 else 0))
            = DAYS_BEFORE_MONTH (k - 1) + (if k - 1 > 2 \<and> lp then 1 else 0)
        \<and> DAYS_BEFORE_MONTH (k - 1) + (if k - 1 > 2 \<and> lp then 1 else 0) \<le> r4
        \<and> r4 < DAYS_BEFORE_MONTH (k - 1) + (if k - 1 > 2 \<and> lp then 1 else 0)
             + (if k - 1 = 2 \<and> lp then 29 else DAYS_IN_MONTH (k - 1))"
        unfolding P_def using month_too_large[of r4 k lp] ys kr kc True[unfolded P_def] by simp
      then show ?thesis
        unfolding ymd ymd2ord_def days_before_month_def days_in_month_def dby leap
        by (simp add: n_def)
    next
      case False
      with unfolded res \<open>\<not> (e = 4 \<or> b = 4)\<close> have ymd: "y = year" "m = k" "d = r4 - P + 1"
        by simp_all
      have "r4 < P + (if k = 2 \<and> lp then 29 else DAYS_IN_MONTH k)"
        unfolding P_def using month_exact[of r4 k lp] ys kr kc False[unfolded P_def] by simp
      then show ?thesis
        unfolding ymd ymd2ord_def days_before_month_def days_in_month_def dby leap
        using kr False by (simp add: n_def P_def)
    qed
  qed
qed

lemma div_pred:
  fixes y k :: int
  assumes "0 < k"
  shows "y div k = (y - 1) div k + (if y mod k = 0 then 1 else 0)"
proof -
  define q where "q = (y - 1) div k"
  define r where "r = (y - 1) mod k"
  have r: "0 \<le> r" "r < k" using assms by (simp_all add: r_def)
  have y: "y = k * q + (r + 1)" unfolding q_def r_def by (simp add: algebra_simps)
  show ?thesis
  proof (cases "r + 1 = k")
    case True
    then have y': "y = k * (q + 1) + 0" using y by (simp add: algebra_simps)
    have "y div k = q + 1" using int_div_pos_eq[OF y'] assms by simp
    moreover have "y mod k = 0" using int_mod_pos_eq[OF y'] assms by simp
    ultimately show ?thesis by (simp add: q_def)
  next
    case False
    then have lt: "r + 1 < k" using r by simp
    have "y div k = q" using int_div_pos_eq[OF y _ lt] r by simp
    moreover have "y mod k = r + 1" using int_mod_pos_eq[OF y _ lt] r by simp
    ultimately show ?thesis using r by (simp add: q_def)
  qed
qed

lemma mod_imp:
  fixes y :: int
  shows "y mod 400 = 0 \<Longrightarrow> y mod 100 = 0" "y mod 100 = 0 \<Longrightarrow> y mod 4 = 0"
proof -
  have a: "(100::int) dvd 400" "(4::int) dvd 100" by simp_all
  show "y mod 400 = 0 \<Longrightarrow> y mod 100 = 0" using a(1) by (metis dvd_trans mod_eq_0_iff_dvd)
  show "y mod 100 = 0 \<Longrightarrow> y mod 4 = 0" using a(2) by (metis dvd_trans mod_eq_0_iff_dvd)
qed

lemma days_before_year_Suc:
  "days_before_year (y + 1) = days_before_year y + 365 + (if is_leap y then 1 else 0)"
proof -
  define a where "a = (y - 1) div 4"
  define b where "b = (y - 1) div 100"
  define c where "c = (y - 1) div 400"
  define l4 where "l4 = (if y mod 4 = 0 then 1 else 0::int)"
  define l100 where "l100 = (if y mod 100 = 0 then 1 else 0::int)"
  define l400 where "l400 = (if y mod 400 = 0 then 1 else 0::int)"
  have d: "y div 4 = a + l4" "y div 100 = b + l100" "y div 400 = c + l400"
    unfolding a_def b_def c_def l4_def l100_def l400_def
    by (rule div_pred, simp)+
  have lhs: "days_before_year (y + 1) = y * 365 + (a + l4) - (b + l100) + (c + l400)"
    unfolding days_before_year_def Let_def d[symmetric] by simp
  have rhs: "days_before_year y = (y - 1) * 365 + a - b + c"
    unfolding days_before_year_def Let_def a_def b_def c_def by simp
  have leap: "(if is_leap y then 1 else 0::int) = l4 - l100 + l400"
    unfolding is_leap_def l4_def l100_def l400_def using mod_imp[of y]
    by (cases "y mod 4 = 0"; cases "y mod 100 = 0"; cases "y mod 400 = 0") simp_all
  show ?thesis unfolding lhs rhs leap by (simp add: algebra_simps)
qed

lemma days_before_year_mono: "y \<le> y' \<Longrightarrow> days_before_year y \<le> days_before_year y'"
proof (induction y' rule: int_ge_induct)
  case base
  show ?case by simp
next
  case (step i)
  have "days_before_year i \<le> days_before_year (i + 1)"
    unfolding days_before_year_Suc by simp
  with step show ?case by linarith
qed

section \<open>Properties of the date format\<close>

lemma digit_chars: "map digit_char [0, 1, 2, 3, 4, 5, 6, 7, 8, 9] = ''0123456789''"
  by code_simp

lemma digit_char_simps:
  "digit_char 0 = CHR ''0''" "digit_char (Suc 0) = CHR ''1''" "digit_char 2 = CHR ''2''"
  "digit_char 3 = CHR ''3''" "digit_char 4 = CHR ''4''" "digit_char 5 = CHR ''5''"
  "digit_char 6 = CHR ''6''" "digit_char 7 = CHR ''7''" "digit_char 8 = CHR ''8''"
  "digit_char 9 = CHR ''9''"
  using digit_chars by simp_all

lemma code_digit_char: "k < 10 \<Longrightarrow> code (digit_char k) = 48 + k"
  by (simp add: code_def digit_char_def)

lemma is_digit_digit_char: "k < 10 \<Longrightarrow> is_digit (digit_char k)"
  by (simp add: is_digit_def code_digit_char)

lemma digit_value_digit_char: "k < 10 \<Longrightarrow> digit_value (digit_char k) = k"
  by (simp add: digit_value_def code_digit_char)

lemma not_space_digit_char: "k < 10 \<Longrightarrow> \<not> is_space (digit_char k)"
  by (simp add: is_space_def Let_def code_digit_char)

lemma digit_char_eq_iff: "j < 10 \<Longrightarrow> k < 10 \<Longrightarrow> digit_char j = digit_char k \<longleftrightarrow> j = k"
  using digit_value_digit_char by metis

lemma digit_char_eq_0: "k < 10 \<Longrightarrow> digit_char k = CHR ''0'' \<longleftrightarrow> k = 0"
  using digit_char_eq_iff[of k 0] by (simp add: digit_char_simps)

lemma digit_char_eq_1: "k < 10 \<Longrightarrow> digit_char k = CHR ''1'' \<longleftrightarrow> k = 1"
  using digit_char_eq_iff[of k 1] by (simp add: digit_char_simps)

lemma digit_char_eq_2: "k < 10 \<Longrightarrow> digit_char k = CHR ''2'' \<longleftrightarrow> k = 2"
  using digit_char_eq_iff[of k 2] by (simp add: digit_char_simps)

lemma digit_char_neq_others: 
  "k < 10 \<Longrightarrow> digit_char k \<noteq> CHR ''/''" "k < 10 \<Longrightarrow> digit_char k \<noteq> CHR '' ''"
  using is_digit_digit_char[of k] by (auto simp: is_digit_def code_def)

lemma two_digits_parts:
  assumes "0 \<le> v" "v \<le> 99"
  shows "nat (v div 10) < 10" "nat (v mod 10) < 10" "int (nat (v div 10)) = v div 10"
    "int (nat (v mod 10)) = v mod 10"
  using assms by simp_all

lemma match_year_two_digits:
  assumes "0 \<le> v" "v \<le> 99"
  shows "match_year (two_digits v @ r) = Some (v, r)"
  using two_digits_parts[OF assms]
  by (simp add: two_digits_def is_digit_digit_char digit_value_digit_char)

lemma match_month_two_digits:
  assumes "1 \<le> m" "m \<le> 12"
  shows "match_month (two_digits m @ r) = Some (m, r)"
  using month_cases[OF assms]
  apply (elim disjE)
  by (simp_all add: two_digits_def digit_char_simps is_digit_def digit_value_def code_def)

lemma digit_char_eq_3: "k < 10 \<Longrightarrow> digit_char k = CHR ''3'' \<longleftrightarrow> k = 3"
  using digit_char_eq_iff[of k 3] by (simp add: digit_char_simps)

lemma match_day_digit_chars:
  assumes "a < 10" "b < 10"
  shows "match_day (digit_char a # digit_char b # r) =
     (if a = 3 \<and> (b = 0 \<or> b = 1) then Some (30 + int b, r)
      else if a = 1 \<or> a = 2 then Some (10 * int a + int b, r)
      else if a = 0 \<and> b \<noteq> 0 then Some (int b, r)
      else if a \<noteq> 0 then Some (int a, digit_char b # r)
      else None)"
  using assms
  by (simp add: is_digit_digit_char digit_value_digit_char digit_char_eq_0 digit_char_eq_1
      digit_char_eq_2 digit_char_eq_3 digit_char_neq_others)

lemma match_day_two_digits:
  assumes "1 \<le> d" "d \<le> 31"
  shows "match_day (two_digits d @ r) = Some (d, r)"
proof -
  define a where "a = nat (d div 10)"
  define b where "b = nat (d mod 10)"
  have ab: "a < 10" "b < 10" using assms by (simp_all add: a_def b_def)
  have d: "d = 10 * int a + int b" using assms by (simp add: a_def b_def)
  have a: "a = 0 \<or> a = 1 \<or> a = 2 \<or> a = 3" using assms unfolding a_def by linarith
  have a3: "a = 3 \<Longrightarrow> b = 0 \<or> b = 1" using assms d by linarith
  have a0: "a = 0 \<Longrightarrow> b \<noteq> 0" using assms d by linarith
  have "match_day (digit_char a # digit_char b # r) = Some (10 * int a + int b, r)"
    unfolding match_day_digit_chars[OF ab] using a a3 a0 by auto
  then show ?thesis
    unfolding two_digits_def a_def[symmetric] b_def[symmetric] d[symmetric] by simp
qed

lemma lower_day_abbr: "map lower day_abbr = [''mon'', ''tue'', ''wed'', ''thu'', ''fri'', ''sat'', ''sun'']"
  by code_simp

lemma length_day_abbr: "k < 7 \<Longrightarrow> length (day_abbr ! k) = 3"
proof -
  assume "k < 7"
  then have "k = 0 \<or> k = 1 \<or> k = 2 \<or> k = 3 \<or> k = 4 \<or> k = 5 \<or> k = 6" by linarith
  then show ?thesis by (elim disjE) (simp_all add: day_abbr_def)
qed

lemma match_weekday_abbr:
  assumes "k < 7"
  shows "match_weekday (day_abbr ! k @ r) = Some r"
proof -
  have len: "length day_abbr = 7" by (simp add: day_abbr_def)
  have "lower (day_abbr ! k) \<in> set (map lower day_abbr)"
    using assms len by simp
  then show ?thesis
    unfolding match_weekday_def using length_day_abbr[OF assms] by simp
qed

lemma weekday_less: "weekday n < 7"
  unfolding weekday_def by simp

lemma match_spaces_digit:
  assumes "k < 10"
  shows "match_spaces (CHR '' '' # digit_char k # r) = Some (digit_char k # r)"
  using not_space_digit_char[OF assms]
  by (simp add: match_spaces_def is_space_def code_def)

lemma days_in_month_le: "days_in_month y m \<le> 31"
  by (simp add: days_in_month_def DAYS_IN_MONTH_def)

lemma strptime_strftime_general:
  assumes n: "1 \<le> n" and ymd: "ord2ymd n = (y, m, d)"
  shows "strptime (strftime n) =
     (if d \<le> days_in_month (century (y mod 100)) m
      then Inr (ymd2ord (century (y mod 100)) m d) else Inl ValueError)"
proof -
  note p = ord2ymd_props[OF n ymd]
  have m: "1 \<le> m" "m \<le> 12" using p by simp_all
  have d: "1 \<le> d" "d \<le> 31" using p days_in_month_le[of y m] by simp_all
  have yy: "0 \<le> y mod 100" "y mod 100 \<le> 99" by simp_all
  have m1: "nat (m div 10) < 10" using m by simp
  have s: "strftime n = day_abbr ! weekday n @ CHR '' '' # two_digits m @ CHR ''/'' #
             two_digits d @ CHR ''/'' # two_digits (y mod 100)"
    unfolding strftime_def ymd by simp
  have sp: "match_spaces (CHR '' '' # two_digits m @ CHR ''/'' # two_digits d @ CHR ''/'' # two_digits (y mod 100))
      = Some (two_digits m @ CHR ''/'' # two_digits d @ CHR ''/'' # two_digits (y mod 100))"
    using match_spaces_digit[OF m1] unfolding two_digits_def by simp
  have yr: "match_year (two_digits (y mod 100)) = Some (y mod 100, [])"
    using match_year_two_digits[OF yy, of "[]"] by simp
  show ?thesis
    using d
    by (simp add: strptime_def s match_weekday_abbr[OF weekday_less] sp
      match_month_two_digits[OF m] match_day_two_digits[OF d] yr match_slash_def)
qed

lemma window_values: "window_lo = 718798" "window_hi = 755322"
  by (simp_all add: window_lo_def window_hi_def ymd2ord_def days_before_year_def
      days_before_month_def DAYS_BEFORE_MONTH_def is_leap_def)

lemma days_before_year_values: "days_before_year 1969 = 718797" "days_before_year 2069 = 755322"
  by (simp_all add: days_before_year_def)

lemma in_window_valid: "in_window n \<Longrightarrow> valid_date n"
  by (simp add: in_window_def valid_date_def window_values MAXORDINAL_def)

lemma ymd2ord_bounds:
  assumes "1 \<le> m" "m \<le> 12" "1 \<le> d" "d \<le> days_in_month y m"
  shows "days_before_year y < ymd2ord y m d" "ymd2ord y m d \<le> days_before_year (y + 1)"
proof -
  have "1 \<le> days_before_month y m + d \<and> days_before_month y m + d \<le> 365 + (if is_leap y then 1 else 0)"
    using month_cases[OF assms(1,2)] assms(3,4)
    apply (elim disjE)
    by (simp_all add: days_before_month_def days_in_month_def DAYS_BEFORE_MONTH_def DAYS_IN_MONTH_def
        split: if_splits)
  then show "days_before_year y < ymd2ord y m d" "ymd2ord y m d \<le> days_before_year (y + 1)"
    unfolding ymd2ord_def days_before_year_Suc by simp_all
qed

lemma ymd2ord_in_window:
  assumes "1 \<le> m" "m \<le> 12" "1 \<le> d" "d \<le> days_in_month y m" "1969 \<le> y" "y \<le> 2068"
  shows "in_window (ymd2ord y m d)"
proof -
  have "days_before_year 1969 \<le> days_before_year y" using assms(5) by (rule days_before_year_mono)
  moreover have "days_before_year (y + 1) \<le> days_before_year 2069"
    using assms(6) by (intro days_before_year_mono) simp
  ultimately show ?thesis
    using ymd2ord_bounds[OF assms(1-4)]
    by (simp add: in_window_def window_values days_before_year_values)
qed

lemma year_in_window:
  assumes w: "in_window n" and ymd: "ord2ymd n = (y, m, d)"
  shows "1969 \<le> y \<and> y \<le> 2068"
proof -
  have n: "1 \<le> n" using w by (simp add: in_window_def window_values)
  note p = ord2ymd_props[OF n ymd]
  have b: "days_before_year y < n" "n \<le> days_before_year (y + 1)"
    using ymd2ord_bounds[of m d y] p by simp_all
  have "\<not> y \<le> 1968"
  proof
    assume "y \<le> 1968"
    then have "days_before_year (y + 1) \<le> days_before_year 1969"
      by (intro days_before_year_mono) simp
    with b w show False by (simp add: in_window_def window_values days_before_year_values)
  qed
  moreover have "\<not> 2069 \<le> y"
  proof
    assume "2069 \<le> y"
    then have "days_before_year 2069 \<le> days_before_year y" by (rule days_before_year_mono)
    with b w show False by (simp add: in_window_def window_values days_before_year_values)
  qed
  ultimately show ?thesis by simp
qed

lemma century_mod:
  assumes "1969 \<le> y" "y \<le> 2068"
  shows "century (y mod 100) = y"
proof (cases "y \<le> 1999")
  case True
  then have "y mod 100 = y - 1900"
    using assms int_mod_pos_eq[of y 100 19 "y - 1900"] by simp
  then show ?thesis using assms True by (simp add: century_def)
next
  case False
  then have "y mod 100 = y - 2000"
    using assms int_mod_pos_eq[of y 100 20 "y - 2000"] by simp
  then show ?thesis using assms False by (simp add: century_def)
qed

lemma strptime_strftime:
  assumes "in_window n"
  shows "strptime (strftime n) = Inr n"
proof -
  obtain y m d where ymd: "ord2ymd n = (y, m, d)" by (metis prod_cases3)
  have n: "1 \<le> n" using assms by (simp add: in_window_def window_values)
  note p = ord2ymd_props[OF n ymd]
  have c: "century (y mod 100) = y" using year_in_window[OF assms ymd] by (simp add: century_mod)
  show ?thesis
    unfolding strptime_strftime_general[OF n ymd] c using p by simp
qed

lemma digit_value_le: "is_digit c \<Longrightarrow> digit_value c \<le> 9"
  unfolding is_digit_def digit_value_def by linarith

lemma digit_value_pos: "is_digit c \<Longrightarrow> c \<noteq> CHR ''0'' \<Longrightarrow> 1 \<le> digit_value c"
proof -
  assume a: "is_digit c" "c \<noteq> CHR ''0''"
  have "code c \<noteq> 48"
  proof
    assume "code c = 48"
    then have "of_char c = (of_char (CHR ''0'') :: nat)" by (simp add: code_def)
    then show False using a(2) by (simp only: of_char_eq_iff)
  qed
  with a(1) show ?thesis unfolding is_digit_def digit_value_def by linarith
qed

lemma digit_value_012: "b \<in> set ''012'' \<Longrightarrow> digit_value b \<le> 2"
  by (auto simp: digit_value_def code_def)

lemma digit_value_01: "b \<in> set ''01'' \<Longrightarrow> digit_value b \<le> 1"
  by (auto simp: digit_value_def code_def)

lemma digit_value_12: "a \<in> set ''12'' \<Longrightarrow> 1 \<le> digit_value a \<and> digit_value a \<le> 2"
  by (auto simp: digit_value_def code_def)

lemma match_month_range:
  assumes "match_month s = Some (m, r)"
  shows "1 \<le> m \<and> m \<le> 12"
proof (cases s rule: match_month.cases)
  case (1 a b t)
  then show ?thesis
    using assms digit_value_le[of b] digit_value_pos[of b] digit_value_le[of a] digit_value_pos[of a]
      digit_value_012[of b]
    by (auto split: if_splits)
next
  case (2 a)
  then show ?thesis
    using assms digit_value_le[of a] digit_value_pos[of a] by (auto split: if_splits)
next
  case 3
  then show ?thesis using assms by simp
qed

lemma match_year_range:
  assumes "match_year s = Some (yy, r)"
  shows "0 \<le> yy \<and> yy \<le> 99"
proof (cases s rule: match_year.cases)
  case (1 a b t)
  then show ?thesis
    using assms digit_value_le[of b] digit_value_le[of a] by (auto split: if_splits)
qed (use assms in simp_all)

lemma century_range: "0 \<le> yy \<Longrightarrow> yy \<le> 99 \<Longrightarrow> 1969 \<le> century yy \<and> century yy \<le> 2068"
  by (simp add: century_def)

lemma parsed_fields_in_window:
  assumes "match_month r1 = Some (m, r2)" "match_year r3 = Some (yy, r4)"
    "1 \<le> d" "d \<le> days_in_month (century yy) m"
  shows "in_window (ymd2ord (century yy) m d)"
  using ymd2ord_in_window[of m d "century yy"] match_month_range[OF assms(1)] assms(3,4)
    century_range[of yy] match_year_range[OF assms(2)]
  by simp

lemma strptime_in_window:
  assumes "strptime s = Inr n"
  shows "in_window n"
  using assms unfolding strptime_def
  by (auto simp: Let_def split: option.splits if_splits prod.splits intro: parsed_fields_in_window)

section \<open>Properties of the string functions\<close>

lemma digits_of_digits: "c \<in> set (digits_of n) \<Longrightarrow> is_digit c"
proof (induction n rule: digits_of.induct)
  case (1 n)
  show ?case
  proof (cases "n < 10")
    case True
    with "1.prems" show ?thesis by (simp add: digits_of.simps[of n] is_digit_digit_char)
  next
    case False
    with "1.prems" "1.IH" show ?thesis
      by (auto simp: digits_of.simps[of n] is_digit_digit_char)
  qed
qed

lemma digits_of_nonempty: "digits_of n \<noteq> []"
  by (subst digits_of.simps) simp

lemma digits_value_snoc: "digits_value (ds @ [c]) = 10 * digits_value ds + digit_value c"
  by (simp add: digits_value_def)

lemma digits_value_digits_of: "digits_value (digits_of n) = n"
proof (induction n rule: digits_of.induct)
  case (1 n)
  show ?case
  proof (cases "n < 10")
    case True
    then show ?thesis by (simp add: digits_of.simps[of n] digits_value_def digit_value_digit_char)
  next
    case False
    with "1.IH" show ?thesis
      by (simp add: digits_of.simps[of n] digits_value_snoc digit_value_digit_char)
  qed
qed

lemma digit_not_special:
  assumes "is_digit c"
  shows "c \<noteq> CHR ''_''" "c \<noteq> CHR ''-''" "c \<noteq> CHR ''+''" "\<not> is_space c"
  using assms by (auto simp: is_digit_def is_space_def code_def Let_def)

lemma int_body_ok_digits: "ds \<noteq> [] \<Longrightarrow> \<forall>c \<in> set ds. is_digit c \<Longrightarrow> int_body_ok ds"
  by (induction ds rule: int_body_ok.induct) (auto simp: digit_not_special)

lemma filter_digits: "\<forall>c \<in> set ds. is_digit c \<Longrightarrow> filter (\<lambda>c. c \<noteq> CHR ''_'') ds = ds"
  by (induction ds) (auto simp: digit_not_special)

lemma strip_no_space: "\<forall>c \<in> set s. \<not> is_space c \<Longrightarrow> strip s = s"
proof -
  assume a: "\<forall>c \<in> set s. \<not> is_space c"
  then have "dropWhile is_space s = s" by (cases s) simp_all
  moreover from a have "dropWhile is_space (rev s) = rev s" by (cases "rev s") (simp, metis dropWhile.simps(2) list.set_intros(1) set_rev)
  ultimately show ?thesis by (simp add: strip_def)
qed

lemma minus_not_space: "\<not> is_space (CHR ''-'')"
  by (simp add: is_space_def code_def)

lemma str_int_no_space: "c \<in> set (str_int i) \<Longrightarrow> \<not> is_space c"
  by (auto simp: str_int_def minus_not_space digit_not_special dest: digits_of_digits split: if_splits)

lemma str_int_nonempty: "str_int i \<noteq> []"
  by (simp add: str_int_def digits_of_nonempty)

lemma py_int_str_int: "py_int (str_int i) = Inr i"
proof -
  have s: "strip (str_int i) = str_int i"
    by (rule strip_no_space) (simp add: str_int_no_space)
  have dg: "\<forall>c \<in> set (digits_of k). is_digit c" for k by (simp add: digits_of_digits)
  show ?thesis
  proof (cases "i < 0")
    case True
    then show ?thesis
      unfolding py_int_def s
      by (simp add: str_int_def int_body_ok_digits digits_of_nonempty dg filter_digits
          digits_value_digits_of)
  next
    case False
    obtain c r where cr: "digits_of (nat i) = c # r" using digits_of_nonempty by (cases "digits_of (nat i)") auto
    then have "is_digit c" using dg[of "nat i"] by simp
    then have c: "c \<noteq> CHR ''-''" "c \<noteq> CHR ''+''" by (simp_all add: digit_not_special)
    have ok: "int_body_ok (c # r)" "filter (\<lambda>c. c \<noteq> CHR ''_'') (c # r) = c # r"
      using int_body_ok_digits[of "digits_of (nat i)"] filter_digits[of "digits_of (nat i)"] dg[of "nat i"]
      unfolding cr by simp_all
    have v: "digits_value (c # r) = nat i" using digits_value_digits_of[of "nat i"] unfolding cr .
    show ?thesis
      unfolding py_int_def s using False c ok v
      by (simp add: str_int_def cr del: int_body_ok.simps filter.simps)
  qed
qed

lemma split_from_word:
  "\<forall>c \<in> set w. \<not> is_space c \<Longrightarrow> split_from cur (w @ rest) = split_from (cur @ w) rest"
  by (induction w arbitrary: cur) simp_all

lemma split_days: "split_from [] ''days'' = [''days'']"
  by code_simp

lemma is_space_blank: "is_space (CHR '' '')"
  by code_simp

lemma split_duration:
  assumes "\<forall>c \<in> set w. \<not> is_space c" "w \<noteq> []"
  shows "split (w @ '' days'') = [w, ''days'']"
proof -
  have "split_from [] (w @ '' days'') = split_from w '' days''"
    using split_from_word[OF assms(1), of "[]" "'' days''"] by simp
  also have "\<dots> = w # split_from [] ''days''"
    using assms(2) by (simp add: is_space_blank del: split_from.simps(2) add: split_from.simps(2)[of w])
  finally show ?thesis by (simp add: split_def split_days del: split_from.simps)
qed

lemma starts_with_append: "starts_with sub (sub @ ys)"
  by (induction sub) simp_all

lemma contains_append: "contains sub (xs @ sub)"
proof (induction xs)
  case Nil
  show ?case using starts_with_append[of sub "[]"] by (cases sub) simp_all
next
  case (Cons x xs)
  then show ?case by simp
qed

lemma duration_days_cell: "duration_days (CStr (str_int d @ '' days'')) = Inr d"
  using split_duration[of "str_int d"] str_int_no_space[of _ d] str_int_nonempty[of d]
  by (simp add: duration_days_def py_int_str_int)

lemma has_days_cell: "has_days (CStr (str_int d @ '' days'')) = Inr True"
  using contains_append[of "''days''" "str_int d @ '' ''"] by (simp add: has_days_def)

section \<open>Properties of the tables\<close>

lemma and_then_simps [simp]:
  "and_then (Inl e) f = Inl e" "and_then (Inr x) f = f x"
  by (simp_all add: and_then_def)

lemma and_then_Inr_iff: "and_then m f = Inr y \<longleftrightarrow> (\<exists>x. m = Inr x \<and> f x = Inr y)"
  by (cases m) simp_all

lemma map_raising_Inr_iff: "map_raising f xs = Inr ys \<longleftrightarrow> map f xs = map Inr ys"
proof (induction xs arbitrary: ys)
  case Nil
  show ?case by auto
next
  case (Cons x xs)
  show ?case
  proof (cases "f x")
    case (Inl e)
    then show ?thesis by (cases ys) auto
  next
    case (Inr y)
    show ?thesis
    proof (cases "map_raising f xs")
      case (Inl e)
      with Cons[of "tl ys"] Inr show ?thesis by (cases ys) auto
    next
      case inner: (Inr zs)
      with Cons[of zs] Cons[of "tl ys"] Inr show ?thesis by (cases ys) auto
    qed
  qed
qed

lemma row_get_plan_columns:
  "row_get plan_columns [a, b, c, d, e, f, g, h, i, j] ''Duration'' = Inr e"
  "row_get plan_columns [a, b, c, d, e, f, g, h, i, j] ''Start'' = Inr f"
  "row_get plan_columns [a, b, c, d, e, f, g, h, i, j] ''Finish'' = Inr g"
  "row_get plan_columns [a, b, c, d, e, f, g, h, i, j] ''ID'' = Inr a"
  by (simp_all add: row_get_def plan_columns_def)

lemma reindex_plan_columns:
  "reindex plan_columns plan_columns [a, b, c, d, e, f, g, h, i, j] = [a, b, c, d, e, f, g, h, i, j]"
  by (simp add: reindex_def plan_columns_def)

lemma index_of_ID: "index_of ''ID'' plan_columns = Some 0"
  by (simp add: plan_columns_def)

lemma filter_plan_columns: "filter (\<lambda>c. c \<notin> set plan_columns) plan_columns = []"
  by simp

lemma row_get_update_first:
  assumes "cols \<noteq> []" "c \<noteq> hd cols"
  shows "row_get cols (r[0 := v]) c = row_get cols r c"
proof (cases cols)
  case Nil
  with assms show ?thesis by simp
next
  case (Cons c0 cs)
  with assms show ?thesis by (cases r) (simp_all add: row_get_def)
qed

section \<open>Properties of the planner's loop\<close>

lemma date_plus_days_Inr: "date_plus_days d n = Inr x \<Longrightarrow> x = d + n \<and> valid_date x"
  by (auto simp: date_plus_days_def timedelta_def date_add_def split: if_splits)

lemma length_task_row: "length (task_row a b c d e f g h) = 10"
  by (simp add: task_row_def)

lemma row_get_task_row:
  "row_get plan_columns (task_row a b c d e f g h) ''Duration'' = Inr (CStr (str_int c @ '' days''))"
  "row_get plan_columns (task_row a b c d e f g h) ''Start'' = Inr (CStr (strftime d))"
  "row_get plan_columns (task_row a b c d e f g h) ''Finish'' = Inr (CStr (strftime e))"
  by (simp_all add: task_row_def row_get_plan_columns)

lemma plan_tasks_rows:
  assumes "plan_tasks hash tasks cur its = Inr rs" "valid_date cur"
  shows "length rs = length its
    \<and> (\<forall>r \<in> set rs. length r = 10)
    \<and> map (\<lambda>r. row_get plan_columns r ''Duration'') rs
        = map (\<lambda>d. Inr (CStr (str_int d @ '' days'')))
            (map (\<lambda>(i, t). case t_estimated_duration t of None \<Rightarrow> 5 | Some d \<Rightarrow> d) its)
    \<and> map (\<lambda>r. row_get plan_columns r ''Start'') rs
        = map (\<lambda>(s, f). Inr (CStr (strftime s)))
            (task_dates cur (map (\<lambda>(i, t). case t_estimated_duration t of None \<Rightarrow> 5 | Some d \<Rightarrow> d) its))
    \<and> map (\<lambda>r. row_get plan_columns r ''Finish'') rs
        = map (\<lambda>(s, f). Inr (CStr (strftime f)))
            (task_dates cur (map (\<lambda>(i, t). case t_estimated_duration t of None \<Rightarrow> 5 | Some d \<Rightarrow> d) its))
    \<and> (\<forall>(s, f) \<in> set (task_dates cur
            (map (\<lambda>(i, t). case t_estimated_duration t of None \<Rightarrow> 5 | Some d \<Rightarrow> d) its)).
          valid_date s \<and> valid_date f)"
  using assms
proof (induction its arbitrary: cur rs)
  case Nil
  then show ?case by simp
next
  case (Cons it its)
  obtain i t where it: "it = (i, t)" by (cases it)
  define d where "d = (case t_estimated_duration t of None \<Rightarrow> 5 | Some d \<Rightarrow> d)"
  from Cons.prems(1) obtain finish preds name next_date rest where
    fin: "date_plus_days cur d = Inr finish" and
    nxt: "date_plus_days cur (max 1 (d div 2)) = Inr next_date" and
    rest: "plan_tasks hash tasks next_date its = Inr rest" and
    rs: "rs = task_row (int i + 1) name d cur finish preds (determine_outline_level name)
                (generate_task_notes t) # rest"
    unfolding it d_def
    by (auto simp: Let_def and_then_Inr_iff)
  note f = date_plus_days_Inr[OF fin] and n = date_plus_days_Inr[OF nxt]
  have v: "valid_date next_date" and nd: "next_date = cur + max 1 (d div 2)" and fd: "finish = cur + d"
    and vf: "valid_date finish"
    using n f by blast+
  note IH = Cons.IH[OF rest v]
  show ?case
    unfolding rs it
    using IH vf Cons.prems(2)
    by (simp add: length_task_row row_get_task_row d_def[symmetric] nd[symmetric] fd[symmetric])
qed

lemma total_duration_cells:
  "total_duration (map (\<lambda>d. CStr (str_int d @ '' days'')) ds) = Inr (sum_list ds)"
  by (induction ds) (simp_all add: has_days_cell duration_days_cell)

lemma map_enumerate_snd: "map (\<lambda>(i, t). f t) (enumerate n xs) = map f xs"
  by (induction xs arbitrary: n) simp_all

lemma row_get_renumbered:
  assumes "length vs = length rs" "cols \<noteq> []" "c \<noteq> hd cols"
  shows "map (\<lambda>r. row_get cols r c) (map (\<lambda>(r, v). r[0 := v]) (zip rs vs))
           = map (\<lambda>r. row_get cols r c) rs"
  using assms(1)
proof (induction rs arbitrary: vs)
  case Nil
  then show ?case by simp
next
  case (Cons r rs)
  then obtain v vs' where vs: "vs = v # vs'" by (cases vs) auto
  with Cons show ?case by (simp add: row_get_update_first[OF assms(2,3)])
qed

lemma reindex_length_10:
  assumes "length r = 10"
  shows "reindex plan_columns plan_columns r = r"
proof -
  from assms obtain a b c d e f g h i j where "r = [a, b, c, d, e, f, g, h, i, j]"
    by (auto simp: length_Suc_conv eval_nat_numeral)
  then show ?thesis by (simp add: reindex_plan_columns)
qed

lemma concat_plan_frames:
  assumes "\<forall>r \<in> set rs1. length r = 10" "\<forall>r \<in> set rs2. length r = 10"
  shows "concat_frames \<lparr>columns = plan_columns, rows = rs1\<rparr> \<lparr>columns = plan_columns, rows = rs2\<rparr>
           = \<lparr>columns = plan_columns, rows = rs1 @ rs2\<rparr>"
  using assms by (simp add: concat_frames_def Let_def reindex_length_10 map_idI)

lemma set_column_ID:
  "set_column \<lparr>columns = plan_columns, rows = rs\<rparr> ''ID'' vs
     = \<lparr>columns = plan_columns, rows = map (\<lambda>(r, v). r[0 := v]) (zip rs vs)\<rparr>"
  by (simp add: set_column_def index_of_ID)

lemma min_date_Min: "ds \<noteq> [] \<Longrightarrow> min_date ds = Inr (Min (set ds))"
  by (cases ds) (simp_all add: min_date_def Min.set_eq_fold[symmetric])

lemma max_date_Max: "ds \<noteq> [] \<Longrightarrow> max_date ds = Inr (Max (set ds))"
  by (cases ds) (simp_all add: max_date_def Max.set_eq_fold[symmetric])

lemma length_task_dates: "length (task_dates cur ds) = length ds"
  by (induction ds arbitrary: cur) simp_all

lemma df_col_plan:
  assumes "map (\<lambda>r. row_get plan_columns r c) rs = map Inr cells" "c \<in> set plan_columns"
  shows "df_col \<lparr>columns = plan_columns, rows = rs\<rparr> c = Inr cells"
  using assms by (simp add: df_col_def map_raising_Inr_iff)

lemma determine_outline_level_nonzero: "determine_outline_level name \<noteq> 0"
  by (simp add: determine_outline_level_def Let_def)

lemma row_get_level:
  "row_get plan_columns [a, b, c, d, e, f, g, h, i, j] ''Outline Level'' = Inr i"
  by (simp add: row_get_def plan_columns_def)

lemma plan_tasks_levels:
  assumes "plan_tasks hash tasks cur its = Inr rs"
  shows "\<forall>r \<in> set rs. row_get plan_columns r ''Outline Level'' \<noteq> Inr (CInt 0)"
  using assms
proof (induction its arbitrary: cur rs)
  case Nil
  then show ?case by simp
next
  case (Cons it its)
  obtain i t where it: "it = (i, t)" by (cases it)
  from Cons.prems obtain row next_date rest name where
    rest: "plan_tasks hash tasks next_date its = Inr rest" and
    rs: "rs = row # rest" and
    row: "row_get plan_columns row ''Outline Level'' = Inr (CInt (determine_outline_level name))"
    unfolding it
    by (auto simp: Let_def and_then_Inr_iff task_row_def row_get_level)
  show ?case
    unfolding rs using Cons.IH[OF rest] row determine_outline_level_nonzero by simp
qed

lemma plan_body_rows:
  assumes body: "plan_body hash today pinfo = Inr df"
    and ne: "task_durations pinfo \<noteq> []" and v: "valid_date today"
  shows "\<exists>summary others start_dates finish_dates.
      df = \<lparr>columns = plan_columns, rows = summary # others\<rparr>
    \<and> map (\<lambda>r. row_get plan_columns r ''Duration'') others
          = map (\<lambda>d. Inr (CStr (str_int d @ '' days''))) (task_durations pinfo)
    \<and> map (\<lambda>r. row_get plan_columns r ''Start'') others
          = map (\<lambda>(s, f). Inr (CStr (strftime s))) (task_dates today (task_durations pinfo))
    \<and> map (\<lambda>r. row_get plan_columns r ''Finish'') others
          = map (\<lambda>(s, f). Inr (CStr (strftime f))) (task_dates today (task_durations pinfo))
    \<and> (\<forall>(s, f) \<in> set (task_dates today (task_durations pinfo)). valid_date s \<and> valid_date f)
    \<and> map (\<lambda>(s, f). strptime (strftime s)) (task_dates today (task_durations pinfo)) = map Inr start_dates
    \<and> map (\<lambda>(s, f). strptime (strftime f)) (task_dates today (task_durations pinfo)) = map Inr finish_dates
    \<and> row_get plan_columns summary ''ID'' = Inr (CInt 1)
    \<and> row_get plan_columns summary ''Duration'' = Inr (CStr (str_int (sum_list (task_durations pinfo)) @ '' days''))
    \<and> row_get plan_columns summary ''Start'' = Inr (CStr (strftime (Min (set start_dates))))
    \<and> row_get plan_columns summary ''Finish'' = Inr (CStr (strftime (Max (set finish_dates))))
    \<and> row_get plan_columns summary ''Outline Level'' = Inr (CInt 0)
    \<and> (\<forall>r \<in> set others. row_get plan_columns r ''Outline Level'' \<noteq> Inr (CInt 0))"
proof -
  define tasks where "tasks = (case pi_tasks pinfo of None \<Rightarrow> [] | Some ts \<Rightarrow> ts)"
  define name where "name = (case pi_name pinfo of None \<Rightarrow> ''Untitled Project'' | Some n \<Rightarrow> n)"
  define ds where "ds = task_durations pinfo"
  define td where "td = task_dates today ds"
  have ds: "ds = map (\<lambda>t. case t_estimated_duration t of None \<Rightarrow> 5 | Some d \<Rightarrow> d) tasks"
    by (simp add: ds_def task_durations_def tasks_def)
  from body obtain plan_data sr where
    pt: "plan_tasks hash tasks today (enumerate 0 tasks) = Inr plan_data" and
    cs: "create_summary_row name (data_frame plan_data) = Inr sr" and
    dfeq: "df = set_column (concat_frames sr (data_frame plan_data)) ''ID''
             (map (\<lambda>i. CInt (int i)) [1 ..< length (rows (concat_frames sr (data_frame plan_data))) + 1])"
    unfolding plan_body_def tasks_def[symmetric] name_def[symmetric]
    by (auto simp: Let_def and_then_Inr_iff)
  note R = plan_tasks_rows[OF pt v, unfolded map_enumerate_snd ds[symmetric] td_def[symmetric]]
  have len: "length plan_data = length ds" using R by (simp add: ds)
  have pne: "plan_data \<noteq> []" using len ne by (auto simp: ds_def)
  have frame: "data_frame plan_data = \<lparr>columns = plan_columns, rows = plan_data\<rparr>"
    using pne by (simp add: data_frame_def)
  have l10: "\<forall>r \<in> set plan_data. length r = 10" using R by simp
  have dcol: "df_col \<lparr>columns = plan_columns, rows = plan_data\<rparr> ''Duration''
      = Inr (map (\<lambda>d. CStr (str_int d @ '' days'')) ds)"
    using R by (intro df_col_plan) (simp_all add: plan_columns_def comp_def)
  have scol: "df_col \<lparr>columns = plan_columns, rows = plan_data\<rparr> ''Start''
      = Inr (map (\<lambda>(s, f). CStr (strftime s)) td)"
    using R by (intro df_col_plan) (simp_all add: plan_columns_def comp_def case_prod_unfold)
  have fcol: "df_col \<lparr>columns = plan_columns, rows = plan_data\<rparr> ''Finish''
      = Inr (map (\<lambda>(s, f). CStr (strftime f)) td)"
    using R by (intro df_col_plan) (simp_all add: plan_columns_def comp_def case_prod_unfold)
  have nonempty: "\<not> df_empty \<lparr>columns = plan_columns, rows = plan_data\<rparr>"
    using pne by (simp add: df_empty_def plan_columns_def)
  from cs obtain start_dates finish_dates ps pf where
    sd: "map_raising cell_strptime (map (\<lambda>(s, f). CStr (strftime s)) td) = Inr start_dates" and
    fd: "map_raising cell_strptime (map (\<lambda>(s, f). CStr (strftime f)) td) = Inr finish_dates" and
    ps: "min_date start_dates = Inr ps" and pf: "max_date finish_dates = Inr pf" and
    sr: "sr = \<lparr>columns = plan_columns,
               rows = [[CInt 0, CStr name, CStr ''Yes'', CStr ''Auto Scheduled'',
                        CStr (str_int (sum_list ds) @ '' days''), CStr (strftime ps),
                        CStr (strftime pf), CStr [], CInt 0, CStr summary_notes]]\<rparr>"
    unfolding frame create_summary_row_def
    by (auto simp: nonempty dcol scol fcol total_duration_cells and_then_Inr_iff)
  have sd': "map (\<lambda>(s, f). strptime (strftime s)) td = map Inr start_dates"
    using sd by (simp add: map_raising_Inr_iff comp_def case_prod_unfold cell_strptime_def)
  have fd': "map (\<lambda>(s, f). strptime (strftime f)) td = map Inr finish_dates"
    using fd by (simp add: map_raising_Inr_iff comp_def case_prod_unfold cell_strptime_def)
  have "length start_dates = length ds" "length finish_dates = length ds"
    using arg_cong[OF sd', of length] arg_cong[OF fd', of length]
    by (simp_all add: td_def length_task_dates)
  then have sne: "start_dates \<noteq> []" "finish_dates \<noteq> []" using ne by (auto simp: ds_def)
  have ps': "ps = Min (set start_dates)" and pf': "pf = Max (set finish_dates)"
    using ps pf min_date_Min[OF sne(1)] max_date_Max[OF sne(2)] by simp_all
  define srow where "srow = [CInt 0, CStr name, CStr ''Yes'', CStr ''Auto Scheduled'',
                        CStr (str_int (sum_list ds) @ '' days''), CStr (strftime ps),
                        CStr (strftime pf), CStr [], CInt 0, CStr summary_notes]"
  have cat: "concat_frames sr (data_frame plan_data) = \<lparr>columns = plan_columns, rows = srow # plan_data\<rparr>"
    unfolding sr frame srow_def[symmetric]
    using concat_plan_frames[of "[srow]" plan_data] l10 by (simp add: srow_def)
  define ids where "ids = map (\<lambda>i. CInt (int i)) [2 ..< length plan_data + 2]"
  have upt: "[1 ..< length plan_data + 2] = 1 # [2 ..< length plan_data + 2]"
    by (subst upt_rec) (simp add: numeral_2_eq_2)
  have n: "length (rows \<lparr>columns = plan_columns, rows = srow # plan_data\<rparr>) + 1 = length plan_data + 2"
    by simp
  define others where "others = map (\<lambda>(r, v). r[0 := v]) (zip plan_data ids)"
  have df: "df = \<lparr>columns = plan_columns, rows = srow[0 := CInt 1] # others\<rparr>"
    unfolding dfeq cat set_column_ID n upt ids_def others_def by simp
  have lid: "length ids = length plan_data"
    unfolding ids_def by (simp only: length_map length_upt add_diff_cancel_right')
  have pcne: "plan_columns \<noteq> []" by (simp add: plan_columns_def)
  have hd: "''Duration'' \<noteq> hd plan_columns" "''Start'' \<noteq> hd plan_columns" "''Finish'' \<noteq> hd plan_columns"
    by (simp_all add: plan_columns_def)
  have o: "map (\<lambda>r. row_get plan_columns r ''Duration'') others
             = map (\<lambda>d. Inr (CStr (str_int d @ '' days''))) ds"
    "map (\<lambda>r. row_get plan_columns r ''Start'') others = map (\<lambda>(s, f). Inr (CStr (strftime s))) td"
    "map (\<lambda>r. row_get plan_columns r ''Finish'') others = map (\<lambda>(s, f). Inr (CStr (strftime f))) td"
    unfolding others_def row_get_renumbered[OF lid pcne hd(1)] row_get_renumbered[OF lid pcne hd(2)]
      row_get_renumbered[OF lid pcne hd(3)]
    using R by simp_all
  have s: "row_get plan_columns (srow[0 := CInt 1]) ''ID'' = Inr (CInt 1)"
    "row_get plan_columns (srow[0 := CInt 1]) ''Duration'' = Inr (CStr (str_int (sum_list ds) @ '' days''))"
    "row_get plan_columns (srow[0 := CInt 1]) ''Start'' = Inr (CStr (strftime (Min (set start_dates))))"
    "row_get plan_columns (srow[0 := CInt 1]) ''Finish'' = Inr (CStr (strftime (Max (set finish_dates))))"
    by (simp_all add: srow_def row_get_plan_columns ps' pf')
  have vd: "\<forall>(s, f) \<in> set td. valid_date s \<and> valid_date f" using R by simp
  have s0: "row_get plan_columns (srow[0 := CInt 1]) ''Outline Level'' = Inr (CInt 0)"
    by (simp add: srow_def row_get_level)
  have lv: "\<forall>r \<in> set others. row_get plan_columns r ''Outline Level'' \<noteq> Inr (CInt 0)"
  proof
    fix r assume "r \<in> set others"
    then obtain p v where pv: "(p, v) \<in> set (zip plan_data ids)" "r = p[0 := v]"
      unfolding others_def by auto
    have "p \<in> set plan_data" using pv(1) by (rule set_zip_leftD)
    then have "row_get plan_columns p ''Outline Level'' \<noteq> Inr (CInt 0)"
      using plan_tasks_levels[OF pt] by simp
    moreover have "''Outline Level'' \<noteq> hd plan_columns" by (simp add: plan_columns_def)
    ultimately show "row_get plan_columns r ''Outline Level'' \<noteq> Inr (CInt 0)"
      unfolding pv(2) by (simp add: row_get_update_first[OF pcne])
  qed
  show ?thesis
    unfolding ds_def[symmetric] td_def[symmetric]
    using df o s vd sd' fd' s0 lv by blast
qed

section \<open>Validation of a plan\<close>

text \<open>
  Claim C8: for every plan table, \<open>validate_plan\<close> returns a list of issue strings,
  reporting missing required columns, empty task names and dates that do not parse, and
  never raises an exception itself.

  The code does not do this. It reports the missing columns and then reads the column
  \<open>Name\<close> without asking whether the table has it (as it does ask for \<open>Start\<close>
  and \<open>Finish\<close>): on a table without that column the call raises \<open>KeyError\<close>.
\<close>

theorem validate_plan_raises_without_name:
  "validate_plan \<lparr>columns = [''ID'', ''Duration'', ''Start'', ''Finish''],
                  rows = [[CInt 1, CStr ''5 days'', CStr ''Mon 11/03/25'', CStr ''Sat 11/08/25'']]\<rparr>
     = Inl KeyError"
  by code_simp

text \<open>
  A date cell that is not a string (a cell emptied in the editor) raises \<open>TypeError\<close>,
  which the \<open>except ValueError\<close> of the date check does not catch.
\<close>

lemma validate_plan_raises_on_missing_date:
  "validate_plan \<lparr>columns = [''ID'', ''Name'', ''Duration'', ''Start'', ''Finish''],
                  rows = [[CInt 1, CStr ''Design API'', CStr ''5 days'', CNone, CStr ''Sat 11/08/25'']]\<rparr>
     = Inl TypeError"
  by code_simp

section \<open>A shift that fails\<close>

text \<open>
  Claim C4: for every plan table with a row whose \<open>Start\<close> or \<open>Finish\<close> does not
  parse, \<open>update_plan_dates\<close> aborts the shift and returns the plan unmodified.

  The code writes the new dates into the table row by row, and the handler of the
  exception returns that same table: the rows before the first row that does not parse
  have been shifted, the others have not.
\<close>

theorem update_plan_dates_partial_shift:
  "update_plan_dates (ymd2ord 2025 12 1)
     \<lparr>columns = [''Name'', ''Start'', ''Finish''],
      rows = [[CStr ''Design API'', CStr ''Mon 11/03/25'', CStr ''Sat 11/08/25''],
              [CStr ''Write docs'', CStr ''to be decided'', CStr ''Sun 11/09/25'']]\<rparr>
   = (Some ValueError,
      \<lparr>columns = [''Name'', ''Start'', ''Finish''],
       rows = [[CStr ''Design API'', CStr ''Mon 12/01/25'', CStr ''Sat 12/06/25''],
               [CStr ''Write docs'', CStr ''to be decided'', CStr ''Sun 11/09/25'']]\<rparr>)"
  by code_simp

section \<open>The identifier of the summary row\<close>

text \<open>
  Claim C6: in every plan generated from a non-empty task list, the summary row has id 0
  and is the first row of the table.

  The summary row is built with id 0 and put first, and then every row is numbered
  again from 1: the summary row of the returned table has id 1, and the tasks 2, 3, ...
  (the application's timeline skips the row whose id is 0, and the predecessors name the
  tasks by their first numbering).
\<close>

theorem summary_row_id_is_one:
  "generate_project_plan constant_hash (ymd2ord 2025 11 3) auth_project
   = Inr \<lparr>columns = plan_columns,
          rows = [[CInt 1, CStr ''Auth'', CStr ''Yes'', CStr ''Auto Scheduled'', CStr ''9 days'',
                   CStr ''Mon 11/03/25'', CStr ''Sun 11/09/25'', CStr [], CInt 0,
                   CStr ''This roadmap is intended to guide the project execution.''],
                  [CInt 2, CStr ''Design API'', CStr ''Yes'', CStr ''Auto Scheduled'', CStr ''5 days'',
                   CStr ''Mon 11/03/25'', CStr ''Sat 11/08/25'', CStr [], CInt 1,
                   CStr ''Priority: High. We design the API in 5 days.''],
                  [CInt 3, CStr ''Write docs'', CStr ''Yes'', CStr ''Auto Scheduled'', CStr ''4 days'',
                   CStr ''Wed 11/05/25'', CStr ''Sun 11/09/25'', CStr [], CInt 2,
                   CStr ''Priority: Low. Then we write the docs.'']]\<rparr>"
  by code_simp

section \<open>An empty task list\<close>

lemma plan_body_no_tasks:
  assumes "pi_tasks pinfo = None \<or> pi_tasks pinfo = Some []"
  shows "plan_body hash today pinfo = Inr \<lparr>columns = [''ID''], rows = []\<rparr>"
  using assms
  by (auto simp: plan_body_def data_frame_def create_summary_row_def df_empty_def empty_frame_def
      concat_frames_def set_column_def)

lemma default_plan_two_rows: "create_default_plan today = Inr df \<Longrightarrow> length (rows df) = 2"
  by (auto simp: create_default_plan_def and_then_Inr_iff)

text \<open>
  Claim C10: for a project whose task list is empty (or absent), \<open>generate_project_plan\<close>
  returns an empty table: the loop adds no row, no summary row is made, the two empty
  frames are concatenated and the \<open>ID\<close> column is set to an empty range. No exception
  occurs, so the result is the table of the \<open>try\<close> block and not the default plan,
  which has two rows.
\<close>

theorem empty_task_list_gives_empty_table:
  assumes "pi_tasks pinfo = None \<or> pi_tasks pinfo = Some []"
  shows "plan_body hash today pinfo = Inr \<lparr>columns = [''ID''], rows = []\<rparr>
    \<and> generate_project_plan hash today pinfo = Inr \<lparr>columns = [''ID''], rows = []\<rparr>
    \<and> df_empty \<lparr>columns = [''ID''], rows = []\<rparr>
    \<and> create_default_plan today \<noteq> Inr \<lparr>columns = [''ID''], rows = []\<rparr>"
proof -
  have b: "plan_body hash today pinfo = Inr \<lparr>columns = [''ID''], rows = []\<rparr>"
    using assms by (rule plan_body_no_tasks)
  have "create_default_plan today \<noteq> Inr \<lparr>columns = [''ID''], rows = []\<rparr>"
    using default_plan_two_rows[of today "\<lparr>columns = [''ID''], rows = []\<rparr>"] by auto
  with b show ?thesis by (simp add: generate_project_plan_def df_empty_def)
qed

theorem empty_task_list_witness:
  "generate_project_plan constant_hash (ymd2ord 2025 11 3) \<lparr>pi_name = Some ''Auth'', pi_tasks = Some []\<rparr>
     = Inr \<lparr>columns = [''ID''], rows = []\<rparr>
   \<and> create_default_plan (ymd2ord 2025 11 3) \<noteq> Inr \<lparr>columns = [''ID''], rows = []\<rparr>"
  using empty_task_list_gives_empty_table
    [of "\<lparr>pi_name = Some ''Auth'', pi_tasks = Some []\<rparr>" constant_hash "ymd2ord 2025 11 3"]
  by simp

section \<open>The default tasks\<close>

text \<open>
  Claim C5: when the scan of the sentences for task keywords finds no task, the task
  list of the analyzer is the fixed list of six default tasks, with their priorities and
  durations, in this order.
\<close>

theorem no_task_found_gives_default_tasks:
  assumes "scan_sentences rnd k (sent_tokenize text) = []"
  shows "extract_tasks sent_tokenize rnd k text =
     [\<lparr>t_name = Some ''Project Planning'', t_description = Some ''Plan project scope and timeline'',
       t_priority = Some ''High'', t_estimated_duration = Some 3\<rparr>,
      \<lparr>t_name = Some ''Requirements Analysis'', t_description = Some ''Analyze project requirements'',
       t_priority = Some ''High'', t_estimated_duration = Some 5\<rparr>,
      \<lparr>t_name = Some ''System Design'', t_description = Some ''Design system architecture'',
       t_priority = Some ''Medium'', t_estimated_duration = Some 7\<rparr>,
      \<lparr>t_name = Some ''Development Phase 1'', t_description = Some ''Initial development phase'',
       t_priority = Some ''High'', t_estimated_duration = Some 10\<rparr>,
      \<lparr>t_name = Some ''Testing'', t_description = Some ''Test system functionality'',
       t_priority = Some ''High'', t_estimated_duration = Some 5\<rparr>,
      \<lparr>t_name = Some ''Deployment'', t_description = Some ''Deploy to production'',
       t_priority = Some ''Medium'', t_estimated_duration = Some 2\<rparr>]"
  using assms by (simp add: extract_tasks_def generate_default_tasks_def)

lemma quiet_text_has_no_task:
  "scan_sentences constant_draws 0
     (plain_sent_tokenize ''The weather was fine all week. Nobody asked for anything.'') = []"
  by code_simp

theorem no_task_found_witness:
  "scan_sentences constant_draws 0
     (plain_sent_tokenize ''The weather was fine all week. Nobody asked for anything.'') = []
   \<and> map t_name (extract_tasks plain_sent_tokenize constant_draws 0
         ''The weather was fine all week. Nobody asked for anything.'')
     = [Some ''Project Planning'', Some ''Requirements Analysis'', Some ''System Design'',
        Some ''Development Phase 1'', Some ''Testing'', Some ''Deployment'']"
  using no_task_found_gives_default_tasks
    [of constant_draws 0 plain_sent_tokenize
        "''The weather was fine all week. Nobody asked for anything.''"]
    quiet_text_has_no_task
  by simp

section \<open>The scenario of the login module\<close>

lemma latin1_words:
  "is_word_char (CHR 0xE9)" "is_word_char (CHR 0xEF)" "is_word_char (CHR 0xB5)"
  "\<not> is_word_char (CHR 0xD7)" "\<not> is_word_char (CHR 0xF7)"
  "title (''mod'' @ [CHR 0xE8] @ ''le '' @ [CHR 0xE9] @ ''t'' @ [CHR 0xE9])
     = ''Mod'' @ [CHR 0xE8] @ ''le '' @ [CHR 0xC9] @ ''t'' @ [CHR 0xE9]"
  "title (''stra'' @ [CHR 0xDF] @ ''e '' @ [CHR 0xDF]) = ''Stra'' @ [CHR 0xDF] @ ''e Ss''"
  by code_simp+

lemma clean_scenario_text: "clean_text scenario_text = scenario_text"
  by code_simp

lemma plain_sentences: "plain_sent_tokenize scenario_text = [implement_sentence, test_sentence]"
  by code_simp

lemma implement_sentence_facts:
  "first_keyword implement_sentence = Some ''implement''"
  "generate_task_name implement_sentence ''implement'' = Some ''Will Implement The Login Module''"
  "find_duration ''day'' (lower implement_sentence) = Some 5"
  by code_simp+

lemma test_sentence_facts:
  "first_keyword test_sentence = Some ''test''"
  "generate_task_name test_sentence ''test'' = Some ''Will Test The Module For''"
  "find_duration ''day'' (lower test_sentence) = Some 2"
  by code_simp+

lemma estimate_priority_cases:
  "\<exists>p. estimate_priority rnd k s = (p, k) \<or> estimate_priority rnd k s = (p, k + 1)"
  by (simp add: estimate_priority_def Let_def)

text \<open>
  Claim C7, as amended: on the text of the scenario, split into its two sentences, the
  task list is exactly two tasks, named \<open>Will Implement The Login Module\<close> with
  duration 5 and \<open>Will Test The Module For\<close> with duration 2, whatever the random
  draws are. The name of a task is the word before the keyword, the keyword and the
  three words after it; no word is left out.
\<close>

theorem scenario_tasks:
  assumes "sent_tokenize scenario_text = [implement_sentence, test_sentence]"
  shows "map (\<lambda>t. (t_name t, t_estimated_duration t)) (project_tasks sent_tokenize rnd k scenario_text)
     = [(Some ''Will Implement The Login Module'', Some 5), (Some ''Will Test The Module For'', Some 2)]"
proof -
  obtain p1 k1 where p1: "estimate_priority rnd k implement_sentence = (p1, k1)" by fastforce
  obtain p2 k2 where p2: "estimate_priority rnd k1 test_sentence = (p2, k2)" by fastforce
  have d1: "estimate_duration rnd k1 implement_sentence = (5, k1)"
    by (simp add: estimate_duration_def implement_sentence_facts)
  have d2: "estimate_duration rnd k2 test_sentence = (2, k2)"
    by (simp add: estimate_duration_def test_sentence_facts)
  have "scan_sentences rnd k [implement_sentence, test_sentence]
     = [\<lparr>t_name = Some ''Will Implement The Login Module'',
         t_description = Some (take 200 implement_sentence),
         t_priority = Some p1, t_estimated_duration = Some 5\<rparr>,
        \<lparr>t_name = Some ''Will Test The Module For'',
         t_description = Some (take 200 test_sentence),
         t_priority = Some p2, t_estimated_duration = Some 2\<rparr>]"
    by (simp add: implement_sentence_facts test_sentence_facts p1 p2 d1 d2)
  then show ?thesis
    by (simp add: project_tasks_def extract_tasks_def clean_scenario_text assms)
qed

theorem scenario_tasks_witness:
  "plain_sent_tokenize scenario_text = [implement_sentence, test_sentence]
   \<and> map (\<lambda>t. (t_name t, t_estimated_duration t))
         (project_tasks plain_sent_tokenize constant_draws 0 scenario_text)
     = [(Some ''Will Implement The Login Module'', Some 5), (Some ''Will Test The Module For'', Some 2)]"
  using scenario_tasks[where sent_tokenize = plain_sent_tokenize and rnd = constant_draws and k = 0]
    plain_sentences
  by simp

text \<open>
  The claim as stated asks for a name that contains \<open>Implement Login Module\<close> and one
  that contains \<open>Test Module\<close>: neither name does.
\<close>

theorem scenario_task_names_counterexample:
  "map t_name (project_tasks plain_sent_tokenize constant_draws 0 scenario_text)
     = [Some ''Will Implement The Login Module'', Some ''Will Test The Module For'']
   \<and> \<not> contains ''Implement Login Module'' ''Will Implement The Login Module''
   \<and> \<not> contains ''Implement Login Module'' ''Will Test The Module For''
   \<and> \<not> contains ''Test Module'' ''Will Implement The Login Module''
   \<and> \<not> contains ''Test Module'' ''Will Test The Module For''"
  by code_simp

section \<open>Reading the generated rows back\<close>

lemma read_back_durations:
  assumes "map (\<lambda>r. row_get cols r ''Duration'') rs = map (\<lambda>d. Inr (CStr (str_int d @ '' days''))) ds"
  shows "map (row_duration cols) rs = map Inr ds"
proof -
  have "map (row_duration cols) rs
      = map (\<lambda>x. and_then x duration_days) (map (\<lambda>r. row_get cols r ''Duration'') rs)"
    by (simp add: row_duration_def comp_def)
  then show ?thesis unfolding assms by (simp add: comp_def duration_days_cell)
qed

lemma read_back_starts:
  assumes "map (\<lambda>r. row_get cols r ''Start'') rs = map (\<lambda>(s, f). Inr (CStr (strftime s))) td"
    and "\<forall>(s, f) \<in> set td. in_window s"
  shows "map (row_start cols) rs = map (\<lambda>(s, f). Inr s) td"
proof -
  have "map (row_start cols) rs
      = map (\<lambda>x. and_then x cell_strptime) (map (\<lambda>r. row_get cols r ''Start'') rs)"
    by (simp add: row_start_def comp_def)
  also have "\<dots> = map (\<lambda>(s, f). strptime (strftime s)) td"
    unfolding assms(1) by (simp add: comp_def case_prod_unfold cell_strptime_def)
  also have "\<dots> = map (\<lambda>(s, f). Inr s) td"
    using assms(2) by (intro map_cong) (auto simp: strptime_strftime)
  finally show ?thesis .
qed

lemma read_back_finishes:
  assumes "map (\<lambda>r. row_get cols r ''Finish'') rs = map (\<lambda>(s, f). Inr (CStr (strftime f))) td"
    and "\<forall>(s, f) \<in> set td. in_window f"
  shows "map (row_finish cols) rs = map (\<lambda>(s, f). Inr f) td"
proof -
  have "map (row_finish cols) rs
      = map (\<lambda>x. and_then x cell_strptime) (map (\<lambda>r. row_get cols r ''Finish'') rs)"
    by (simp add: row_finish_def comp_def)
  also have "\<dots> = map (\<lambda>(s, f). strptime (strftime f)) td"
    unfolding assms(1) by (simp add: comp_def case_prod_unfold cell_strptime_def)
  also have "\<dots> = map (\<lambda>(s, f). Inr f) td"
    using assms(2) by (intro map_cong) (auto simp: strptime_strftime)
  finally show ?thesis .
qed

lemma finish_matches_rows:
  assumes "map (row_duration cols) rs = map Inr ds"
    and "map (row_start cols) rs = map (\<lambda>(s, f). Inr s) (task_dates cur ds)"
    and "map (row_finish cols) rs = map (\<lambda>(s, f). Inr f) (task_dates cur ds)"
  shows "\<forall>r \<in> set rs. finish_matches cols r"
  using assms
proof (induction ds arbitrary: cur rs)
  case Nil
  then show ?case by simp
next
  case (Cons d ds)
  from Cons.prems(1) obtain r rs' where rs: "rs = r # rs'" by (cases rs) auto
  from Cons.prems have
    r: "row_duration cols r = Inr d" "row_start cols r = Inr cur" "row_finish cols r = Inr (cur + d)" and
    t: "map (row_duration cols) rs' = map Inr ds"
       "map (row_start cols) rs' = map (\<lambda>(s, f). Inr s) (task_dates (cur + max 1 (d div 2)) ds)"
       "map (row_finish cols) rs' = map (\<lambda>(s, f). Inr f) (task_dates (cur + max 1 (d div 2)) ds)"
    unfolding rs by simp_all
  show ?case
    unfolding rs using Cons.IH[OF t] r by (simp add: finish_matches_def)
qed

lemma staggered_rows:
  assumes "map (row_duration cols) rs = map Inr ds"
    and "map (row_start cols) rs = map (\<lambda>(s, f). Inr s) (task_dates cur ds)"
  shows "staggered cols rs"
  using assms
proof (induction ds arbitrary: cur rs)
  case Nil
  then show ?case by simp
next
  case (Cons d ds)
  from Cons.prems(1) obtain r rs' where rs: "rs = r # rs'" by (cases rs) auto
  from Cons.prems have
    r: "row_duration cols r = Inr d" "row_start cols r = Inr cur" and
    t: "map (row_duration cols) rs' = map Inr ds"
       "map (row_start cols) rs' = map (\<lambda>(s, f). Inr s) (task_dates (cur + max 1 (d div 2)) ds)"
    unfolding rs by simp_all
  note IH = Cons.IH[OF t]
  show ?case
  proof (cases rs')
    case Nil
    then show ?thesis unfolding rs by simp
  next
    case (Cons r' rs'')
    with t obtain d' ds' where ds: "ds = d' # ds'" by (cases ds) auto
    have "row_start cols r' = Inr (cur + max 1 (d div 2))"
      using t(2) unfolding Cons ds by simp
    then show ?thesis
      unfolding rs Cons using IH r by (simp add: Cons)
  qed
qed

lemma map_Inr_member:
  assumes "map f xs = map Inr ys" "y \<in> set ys"
  shows "\<exists>x \<in> set xs. f x = Inr y"
proof -
  from assms(2) obtain i where i: "i < length ys" "ys ! i = y" by (auto simp: in_set_conv_nth)
  have len: "length xs = length ys" using arg_cong[OF assms(1), of length] by simp
  have "map f xs ! i = map Inr ys ! i" using assms(1) by simp
  then have "f (xs ! i) = Inr y" using i len by simp
  then show ?thesis using i len by (metis nth_mem)
qed

lemma no_durations_iff: "task_durations pinfo = [] \<longleftrightarrow> pi_tasks pinfo = None \<or> pi_tasks pinfo = Some []"
  by (auto simp: task_durations_def split: option.splits)

lemma non_summary_rows_generated:
  assumes "row_get cols summary ''Outline Level'' = Inr (CInt 0)"
    and "\<forall>r \<in> set others. row_get cols r ''Outline Level'' \<noteq> Inr (CInt 0)"
  shows "non_summary_rows \<lparr>columns = cols, rows = summary # others\<rparr> = others"
  using assms by (simp add: non_summary_rows_def)

lemma fixed_durations:
  "duration_days (CStr ''30 days'') = Inr 30" "duration_days (CStr ''5 days'') = Inr 5"
  by code_simp+

lemma default_plan_rows_match:
  assumes "create_default_plan today = Inr df" "in_window today" "in_window (today + 30)"
  shows "\<forall>r \<in> set (rows df). finish_matches (columns df) r"
proof -
  have w5: "in_window (today + 5)" using assms(2,3) by (simp add: in_window_def)
  from assms(1) obtain f30 f5 where
    f: "date_plus_days today 30 = Inr f30" "date_plus_days today 5 = Inr f5" and
    df: "df = \<lparr>columns = plan_columns,
          rows = [[CInt 1, CStr ''Sample Project'', CStr ''Yes'', CStr ''Auto Scheduled'',
                   CStr ''30 days'', CStr (strftime today), CStr (strftime f30),
                   CStr [], CInt 1, CStr ''Default project plan generated''],
                  [CInt 2, CStr ''Planning Phase'', CStr ''Yes'', CStr ''Auto Scheduled'',
                   CStr ''5 days'', CStr (strftime today), CStr (strftime f5),
                   CStr [], CInt 2, CStr ''Project planning and requirements gathering'']]\<rparr>"
    unfolding create_default_plan_def by (auto simp: and_then_Inr_iff)
  have e: "f30 = today + 30" "f5 = today + 5" using f date_plus_days_Inr by blast+
  show ?thesis
    unfolding df e
    using assms(2,3) w5
    by (simp add: finish_matches_def row_start_def row_finish_def row_duration_def
        row_get_plan_columns cell_strptime_def strptime_strftime fixed_durations)
qed

section \<open>When the generation completes\<close>

text \<open>
  Started on a date of the years 1 to 9999, the \<open>try\<close> block of
  \<open>generate_project_plan\<close> runs to its end exactly when every task has a name and
  every date the loop computes is a date of the years 1 to 9999. The summary row never
  fails on its own: a date written in the fixed format always parses, since a leap year
  is written as a leap year of the years 1969 to 2068.
\<close>

lemma is_leap_century:
  assumes "is_leap y"
  shows "is_leap (century (y mod 100))"
proof -
  define a where "a = y mod 100"
  have a: "0 \<le> a" "a \<le> 99" by (simp_all add: a_def)
  have "y mod 4 = 0" using assms by (simp add: is_leap_def)
  moreover have "a mod 4 = y mod 4" unfolding a_def by (rule mod_mod_cancel) simp
  ultimately have "4 dvd a" by (simp add: mod_eq_0_iff_dvd)
  then have "4 dvd a + 2000" "4 dvd a + 1900" by simp_all
  then have c4: "century a mod 4 = 0" by (simp add: century_def mod_eq_0_iff_dvd)
  show ?thesis
  proof (cases "a = 0")
    case True
    then show ?thesis unfolding a_def[symmetric] by (simp add: century_def is_leap_def)
  next
    case False
    have "\<not> 100 dvd a"
    proof
      assume "100 dvd a"
      then have "a mod 100 = 0" by (simp add: mod_eq_0_iff_dvd)
      moreover have "a mod 100 = a" using a by simp
      ultimately show False using False by simp
    qed
    then have "\<not> 100 dvd a + 2000" "\<not> 100 dvd a + 1900" by (simp_all add: dvd_add_left_iff)
    then have "century a mod 100 \<noteq> 0" by (simp add: century_def mod_eq_0_iff_dvd)
    with c4 show ?thesis unfolding a_def[symmetric] by (simp add: is_leap_def)
  qed
qed

lemma strptime_strftime_parses:
  assumes "valid_date n"
  shows "\<exists>x. strptime (strftime n) = Inr x"
proof -
  obtain y m d where ymd: "ord2ymd n = (y, m, d)" by (metis prod_cases3)
  have n: "1 \<le> n" using assms by (simp add: valid_date_def)
  note p = ord2ymd_props[OF n ymd]
  have "days_in_month y m \<le> days_in_month (century (y mod 100)) m"
    using is_leap_century[of y] by (simp add: days_in_month_def DAYS_IN_MONTH_def)
  then have "d \<le> days_in_month (century (y mod 100)) m" using p by simp
  then show ?thesis unfolding strptime_strftime_general[OF n ymd] by simp
qed

lemma map_raising_total:
  assumes "\<forall>x \<in> set xs. \<exists>y. f x = Inr y"
  shows "\<exists>ys. map_raising f xs = Inr ys"
  using assms by (induction xs) auto

lemma date_plus_days_valid:
  assumes "valid_date cur" "valid_date (cur + n)"
  shows "date_plus_days cur n = Inr (cur + n)"
proof -
  have "1 \<le> cur" "cur \<le> 3652059" "1 \<le> cur + n" "cur + n \<le> 3652059"
    using assms by (simp_all add: valid_date_def MAXORDINAL_def)
  then have "- 999999999 \<le> n" "n \<le> 999999999" by linarith+
  then show ?thesis using assms(2) by (simp add: date_plus_days_def timedelta_def date_add_def)
qed

lemma plan_tasks_succeeds:
  assumes names: "\<forall>t \<in> set tasks. t_name t \<noteq> None"
    and ts: "ts = drop k tasks"
    and cur: "valid_date cur"
    and dates: "list_all valid_date (loop_dates cur
                    (map (\<lambda>t. case t_estimated_duration t of None \<Rightarrow> 5 | Some d \<Rightarrow> d) ts))"
  shows "\<exists>rs. plan_tasks hash tasks cur (enumerate k ts) = Inr rs"
  using ts cur dates
proof (induction ts arbitrary: k cur)
  case Nil
  then show ?case by simp
next
  case (Cons t ts)
  define d where "d = (case t_estimated_duration t of None \<Rightarrow> 5 | Some d \<Rightarrow> d)"
  have k: "k < length tasks" "tasks ! k = t" "ts = drop (Suc k) tasks"
    using Cons.prems(1)
    by (metis drop_eq_Nil leI list.distinct(1), metis hd_drop_conv_nth drop_eq_Nil leI list.distinct(1) list.sel(1),
        metis drop_Suc list.sel(3) tl_drop)
  have w: "valid_date (cur + d)" "valid_date (cur + max 1 (d div 2))"
    and wt: "list_all valid_date (loop_dates (cur + max 1 (d div 2))
                    (map (\<lambda>t. case t_estimated_duration t of None \<Rightarrow> 5 | Some d \<Rightarrow> d) ts))"
    using Cons.prems(3) by (simp_all add: d_def)
  from Cons.IH[OF k(3) w(2) wt] obtain rest where
    rest: "plan_tasks hash tasks (cur + max 1 (d div 2)) (enumerate (Suc k) ts) = Inr rest"
    by blast
  have "t \<in> set tasks" using k(1,2) nth_mem by blast
  then obtain name where name: "t_name t = Some name" using names by auto
  have "\<exists>p. calculate_predecessors hash (int k + 1) k tasks = Inr p"
    using k(1,2) name by (simp add: calculate_predecessors_def)
  then obtain p where p: "calculate_predecessors hash (int k + 1) k tasks = Inr p" by blast
  show ?case
    using date_plus_days_valid[OF Cons.prems(2) w(1)] date_plus_days_valid[OF Cons.prems(2) w(2)]
      p name rest
    by (simp add: d_def[symmetric] Let_def)
qed

lemma ball_enumerate: "(\<forall>(i, t) \<in> set (enumerate n xs). P t) \<longleftrightarrow> (\<forall>t \<in> set xs. P t)"
proof -
  have "set xs = snd ` set (enumerate n xs)" by (simp flip: set_map)
  then show ?thesis by auto
qed

lemma plan_tasks_completes_only_if:
  assumes "plan_tasks hash tasks cur its = Inr rs"
  shows "(\<forall>(i, t) \<in> set its. t_name t \<noteq> None)
    \<and> list_all valid_date (loop_dates cur
          (map (\<lambda>(i, t). case t_estimated_duration t of None \<Rightarrow> 5 | Some d \<Rightarrow> d) its))"
  using assms
proof (induction its arbitrary: cur rs)
  case Nil
  then show ?case by simp
next
  case (Cons it its)
  obtain i t where it: "it = (i, t)" by (cases it)
  define d where "d = (case t_estimated_duration t of None \<Rightarrow> 5 | Some d \<Rightarrow> d)"
  from Cons.prems(1) obtain finish name next_date rest where
    fin: "date_plus_days cur d = Inr finish" and
    name: "t_name t = Some name" and
    nxt: "date_plus_days cur (max 1 (d div 2)) = Inr next_date" and
    rest: "plan_tasks hash tasks next_date its = Inr rest"
    unfolding it d_def
    by (auto simp: Let_def and_then_Inr_iff split: option.splits)
  note f = date_plus_days_Inr[OF fin] and n = date_plus_days_Inr[OF nxt]
  have nd: "next_date = cur + max 1 (d div 2)"
    and v: "valid_date (cur + d)" "valid_date (cur + max 1 (d div 2))"
    using f n by blast+
  show ?case
    unfolding it using Cons.IH[OF rest, unfolded nd] v name
    by (simp add: d_def[symmetric])
qed

lemma plan_body_succeeds:
  assumes names: "all_named pinfo"
    and today: "valid_date today"
    and dates: "list_all valid_date (loop_dates today (task_durations pinfo))"
  shows "\<exists>df. plan_body hash today pinfo = Inr df"
proof (cases "task_durations pinfo")
  case Nil
  then show ?thesis
    using plan_body_no_tasks[of pinfo hash today] by (simp add: no_durations_iff)
next
  case (Cons d0 ds0)
  define tasks where "tasks = (case pi_tasks pinfo of None \<Rightarrow> [] | Some ts \<Rightarrow> ts)"
  define name where "name = (case pi_name pinfo of None \<Rightarrow> ''Untitled Project'' | Some n \<Rightarrow> n)"
  define ds where "ds = task_durations pinfo"
  define td where "td = task_dates today ds"
  have ds: "ds = map (\<lambda>t. case t_estimated_duration t of None \<Rightarrow> 5 | Some d \<Rightarrow> d) tasks"
    by (simp add: ds_def task_durations_def tasks_def)
  have nm: "\<forall>t \<in> set tasks. t_name t \<noteq> None"
    using names by (simp add: all_named_def tasks_def list_all_iff)
  from plan_tasks_succeeds[of tasks tasks 0 today hash] nm today dates
  obtain plan_data where pt: "plan_tasks hash tasks today (enumerate 0 tasks) = Inr plan_data"
    unfolding ds_def[symmetric] ds by auto
  note R = plan_tasks_rows[OF pt today, unfolded map_enumerate_snd ds[symmetric] td_def[symmetric]]
  have len: "length plan_data = length ds" using R by (simp add: ds)
  have pne: "plan_data \<noteq> []" using len Cons by (auto simp: ds_def)
  have frame: "data_frame plan_data = \<lparr>columns = plan_columns, rows = plan_data\<rparr>"
    using pne by (simp add: data_frame_def)
  have dcol: "df_col \<lparr>columns = plan_columns, rows = plan_data\<rparr> ''Duration''
      = Inr (map (\<lambda>d. CStr (str_int d @ '' days'')) ds)"
    using R by (intro df_col_plan) (simp_all add: plan_columns_def comp_def)
  have scol: "df_col \<lparr>columns = plan_columns, rows = plan_data\<rparr> ''Start''
      = Inr (map (\<lambda>x. CStr (strftime (fst x))) td)"
    using R by (intro df_col_plan) (simp_all add: plan_columns_def comp_def case_prod_unfold)
  have fcol: "df_col \<lparr>columns = plan_columns, rows = plan_data\<rparr> ''Finish''
      = Inr (map (\<lambda>x. CStr (strftime (snd x))) td)"
    using R by (intro df_col_plan) (simp_all add: plan_columns_def comp_def case_prod_unfold)
  have nonempty: "\<not> df_empty \<lparr>columns = plan_columns, rows = plan_data\<rparr>"
    using pne by (simp add: df_empty_def plan_columns_def)
  have vd: "\<forall>x \<in> set td. valid_date (fst x) \<and> valid_date (snd x)" using R by auto
  have "\<forall>c \<in> set (map (\<lambda>x. CStr (strftime (fst x))) td). \<exists>y. cell_strptime c = Inr y"
    using vd by (auto simp: cell_strptime_def strptime_strftime_parses)
  from map_raising_total[OF this] obtain ss where
    ss: "map_raising cell_strptime (map (\<lambda>x. CStr (strftime (fst x))) td) = Inr ss" by blast
  have "\<forall>c \<in> set (map (\<lambda>x. CStr (strftime (snd x))) td). \<exists>y. cell_strptime c = Inr y"
    using vd by (auto simp: cell_strptime_def strptime_strftime_parses)
  from map_raising_total[OF this] obtain fs where
    fs: "map_raising cell_strptime (map (\<lambda>x. CStr (strftime (snd x))) td) = Inr fs" by blast
  have tdne: "td \<noteq> []" using Cons by (simp add: td_def ds_def)
  have "length ss = length td" "length fs = length td"
    using ss fs by (auto simp: map_raising_Inr_iff dest: map_eq_imp_length_eq)
  then have ne: "ss \<noteq> []" "fs \<noteq> []" using tdne by auto
  have "\<exists>sr. create_summary_row name (data_frame plan_data) = Inr sr"
    unfolding frame create_summary_row_def
    using ne
    by (simp add: nonempty dcol scol fcol total_duration_cells ss fs min_date_Min max_date_Max)
  then obtain sr where "create_summary_row name (data_frame plan_data) = Inr sr" by blast
  then show ?thesis
    unfolding plan_body_def tasks_def[symmetric] name_def[symmetric]
    using pt by (simp add: Let_def)
qed

lemma plan_body_completes_iff:
  assumes "valid_date today"
  shows "(\<exists>df. plan_body hash today pinfo = Inr df)
     \<longleftrightarrow> all_named pinfo \<and> list_all valid_date (loop_dates today (task_durations pinfo))"
proof
  assume "\<exists>df. plan_body hash today pinfo = Inr df"
  then obtain plan_data where
    "plan_tasks hash (case pi_tasks pinfo of None \<Rightarrow> [] | Some ts \<Rightarrow> ts) today
       (enumerate 0 (case pi_tasks pinfo of None \<Rightarrow> [] | Some ts \<Rightarrow> ts)) = Inr plan_data"
    unfolding plan_body_def by (auto simp: Let_def and_then_Inr_iff)
  from plan_tasks_completes_only_if[OF this]
  show "all_named pinfo \<and> list_all valid_date (loop_dates today (task_durations pinfo))"
    by (simp add: all_named_def task_durations_def map_enumerate_snd ball_enumerate list_all_iff)
next
  assume "all_named pinfo \<and> list_all valid_date (loop_dates today (task_durations pinfo))"
  then show "\<exists>df. plan_body hash today pinfo = Inr df"
    using plan_body_succeeds[OF _ assms] by blast
qed

lemma default_plan_succeeds:
  assumes "in_window today" "in_window (today + 30)"
  shows "\<exists>df. create_default_plan today = Inr df"
proof -
  have "in_window (today + 5)" using assms by (simp add: in_window_def)
  then have "date_plus_days today 30 = Inr (today + 30)" "date_plus_days today 5 = Inr (today + 5)"
    using assms by (simp_all add: date_plus_days_valid in_window_valid)
  then show ?thesis by (simp add: create_default_plan_def)
qed

lemma generated_rows_match:
  assumes body: "plan_body hash today pinfo = Inr df"
    and tasks: "\<forall>(s, f) \<in> set (task_dates today (task_durations pinfo)). in_window s \<and> in_window f"
  shows "\<forall>r \<in> set (non_summary_rows df). finish_matches (columns df) r"
proof (cases "task_durations pinfo")
  case Nil
  then have "df = \<lparr>columns = [''ID''], rows = []\<rparr>"
    using plan_body_no_tasks[of pinfo hash today] body by (simp add: no_durations_iff)
  then show ?thesis by (simp add: non_summary_rows_def)
next
  case (Cons d ds)
  then have ne: "task_durations pinfo \<noteq> []" by simp
  have "in_window today" using tasks unfolding Cons by simp
  then have v: "valid_date today" by (rule in_window_valid)
  from plan_body_rows[OF body ne v]
  obtain summary others where
    df: "df = \<lparr>columns = plan_columns, rows = summary # others\<rparr>" and
    D: "map (\<lambda>r. row_get plan_columns r ''Duration'') others
          = map (\<lambda>d. Inr (CStr (str_int d @ '' days''))) (task_durations pinfo)" and
    S: "map (\<lambda>r. row_get plan_columns r ''Start'') others
          = map (\<lambda>(s, f). Inr (CStr (strftime s))) (task_dates today (task_durations pinfo))" and
    F: "map (\<lambda>r. row_get plan_columns r ''Finish'') others
          = map (\<lambda>(s, f). Inr (CStr (strftime f))) (task_dates today (task_durations pinfo))" and
    L: "row_get plan_columns summary ''Outline Level'' = Inr (CInt 0)"
       "\<forall>r \<in> set others. row_get plan_columns r ''Outline Level'' \<noteq> Inr (CInt 0)"
    by blast
  have ws: "\<forall>(s, f) \<in> set (task_dates today (task_durations pinfo)). in_window s"
    and wf: "\<forall>(s, f) \<in> set (task_dates today (task_durations pinfo)). in_window f"
    using tasks by auto
  have "\<forall>r \<in> set others. finish_matches plan_columns r"
    using finish_matches_rows[OF read_back_durations[OF D] read_back_starts[OF S ws]
        read_back_finishes[OF F wf]] .
  then show ?thesis
    unfolding df by (simp add: non_summary_rows_generated[OF L])
qed

lemma generated_rows_staggered:
  assumes body: "plan_body hash today pinfo = Inr df"
    and tasks: "\<forall>(s, f) \<in> set (task_dates today (task_durations pinfo)). in_window s"
  shows "staggered (columns df) (non_summary_rows df)"
proof (cases "task_durations pinfo")
  case Nil
  then have "df = \<lparr>columns = [''ID''], rows = []\<rparr>"
    using plan_body_no_tasks[of pinfo hash today] body by (simp add: no_durations_iff)
  then show ?thesis by (simp add: non_summary_rows_def)
next
  case (Cons d ds)
  then have ne: "task_durations pinfo \<noteq> []" by simp
  have "in_window today" using tasks unfolding Cons by simp
  then have v: "valid_date today" by (rule in_window_valid)
  from plan_body_rows[OF body ne v]
  obtain summary others where
    df: "df = \<lparr>columns = plan_columns, rows = summary # others\<rparr>" and
    D: "map (\<lambda>r. row_get plan_columns r ''Duration'') others
          = map (\<lambda>d. Inr (CStr (str_int d @ '' days''))) (task_durations pinfo)" and
    S: "map (\<lambda>r. row_get plan_columns r ''Start'') others
          = map (\<lambda>(s, f). Inr (CStr (strftime s))) (task_dates today (task_durations pinfo))" and
    L: "row_get plan_columns summary ''Outline Level'' = Inr (CInt 0)"
       "\<forall>r \<in> set others. row_get plan_columns r ''Outline Level'' \<noteq> Inr (CInt 0)"
    by blast
  have "staggered plan_columns others"
    using staggered_rows[OF read_back_durations[OF D] read_back_starts[OF S tasks]] .
  then show ?thesis
    unfolding df by (simp add: non_summary_rows_generated[OF L])
qed

lemma auth_plan_generated:
  "plan_body constant_hash (ymd2ord 2025 11 3) auth_project = Inr auth_plan"
  by code_simp

lemma auth_plan_returned:
  "generate_project_plan constant_hash (ymd2ord 2025 11 3) auth_project = Inr auth_plan"
  by (simp add: generate_project_plan_def auth_plan_generated)

lemma auth_plan_two_tasks: "length (non_summary_rows auth_plan) = 2"
  by code_simp

lemma auth_project_completes:
  "all_named auth_project" "valid_date (ymd2ord 2025 11 3)"
  "list_all valid_date (loop_dates (ymd2ord 2025 11 3) (task_durations auth_project))"
  "task_durations auth_project \<noteq> []"
  by code_simp+

lemma unnamed_project_raises:
  "plan_body constant_hash (ymd2ord 2025 11 3) unnamed_project = Inl KeyError"
  by code_simp

lemma unnamed_project_default_plan:
  "generate_project_plan constant_hash (ymd2ord 2025 11 3) unnamed_project
     = Inr \<lparr>columns = plan_columns, rows = [sample_project_row, planning_phase_row]\<rparr>"
  by code_simp

lemma default_plan_no_summary:
  "non_summary_rows \<lparr>columns = plan_columns, rows = [sample_project_row, planning_phase_row]\<rparr>
     = [sample_project_row, planning_phase_row]"
  by code_simp

section \<open>Finish is start plus duration\<close>

lemma auth_dates_in_window:
  "list_all (\<lambda>(s, f). in_window s \<and> in_window f)
     (task_dates (ymd2ord 2025 11 3) (task_durations auth_project))"
  "in_window (ymd2ord 2025 11 3)" "in_window (ymd2ord 2025 11 3 + 30)"
  by code_simp+

lemma year_end_plan_generated:
  "plan_body constant_hash (ymd2ord 2068 12 10) auth_project
     = Inr \<lparr>columns = plan_columns,
            rows = [december_summary_row, december_design_row, december_docs_row]\<rparr>"
  by code_simp

lemma year_end_dates:
  "list_all (\<lambda>(s, f). in_window s \<and> in_window f)
     (task_dates (ymd2ord 2068 12 10) (task_durations auth_project))"
  "\<not> in_window (ymd2ord 2068 12 10 + 30)"
  "non_summary_rows \<lparr>columns = plan_columns,
       rows = [december_summary_row, december_design_row, december_docs_row]\<rparr>
     = [december_design_row, december_docs_row]"
  by code_simp+

text \<open>
  Claim C1, as amended: in every plan returned by \<open>generate_project_plan\<close>, every row
  but the summary row satisfies finish = start + duration, the three read back from the
  cells, provided the dates written in the table lie in the years 1969 to 2068: the start
  and the finish of every task when the generation completes, the start date and the day
  30 days later when it raises and the default plan is returned. These are the years the
  two-digit year of the date format is read as. Under this proviso a plan is returned.
\<close>

theorem finish_is_start_plus_duration:
  assumes dates:
    "case plan_body hash today pinfo of
       Inr generated \<Rightarrow>
         list_all (\<lambda>(s, f). in_window s \<and> in_window f) (task_dates today (task_durations pinfo))
     | Inl exception \<Rightarrow> in_window today \<and> in_window (today + 30)"
  shows "\<exists>df. generate_project_plan hash today pinfo = Inr df
    \<and> (\<forall>r \<in> set (non_summary_rows df). finish_matches (columns df) r)"
proof (cases "plan_body hash today pinfo")
  case (Inl e)
  then have today: "in_window today" "in_window (today + 30)" using dates by simp_all
  from default_plan_succeeds[OF today] obtain df where df: "create_default_plan today = Inr df"
    by blast
  then have "generate_project_plan hash today pinfo = Inr df"
    using Inl by (simp add: generate_project_plan_def)
  moreover have "\<forall>r \<in> set (non_summary_rows df). finish_matches (columns df) r"
    using default_plan_rows_match[OF df today] by (auto simp: non_summary_rows_def)
  ultimately show ?thesis by blast
next
  case (Inr df)
  then have tasks: "\<forall>(s, f) \<in> set (task_dates today (task_durations pinfo)). in_window s \<and> in_window f"
    using dates by (simp add: list_all_iff)
  have "generate_project_plan hash today pinfo = Inr df"
    using Inr by (simp add: generate_project_plan_def)
  then show ?thesis using generated_rows_match[OF Inr tasks] by blast
qed

theorem finish_is_start_plus_duration_witness:
  "plan_body constant_hash (ymd2ord 2025 11 3) auth_project = Inr auth_plan
   \<and> list_all (\<lambda>(s, f). in_window s \<and> in_window f)
        (task_dates (ymd2ord 2025 11 3) (task_durations auth_project))
   \<and> generate_project_plan constant_hash (ymd2ord 2025 11 3) auth_project = Inr auth_plan
   \<and> length (non_summary_rows auth_plan) = 2
   \<and> list_all (finish_matches (columns auth_plan)) (non_summary_rows auth_plan)
   \<and> plan_body constant_hash (ymd2ord 2025 11 3) unnamed_project = Inl KeyError
   \<and> in_window (ymd2ord 2025 11 3) \<and> in_window (ymd2ord 2025 11 3 + 30)
   \<and> generate_project_plan constant_hash (ymd2ord 2025 11 3) unnamed_project
       = Inr \<lparr>columns = plan_columns, rows = [sample_project_row, planning_phase_row]\<rparr>
   \<and> non_summary_rows \<lparr>columns = plan_columns, rows = [sample_project_row, planning_phase_row]\<rparr>
       = [sample_project_row, planning_phase_row]
   \<and> finish_matches plan_columns sample_project_row
   \<and> finish_matches plan_columns planning_phase_row
   \<and> plan_body constant_hash (ymd2ord 2068 12 10) auth_project
       = Inr \<lparr>columns = plan_columns,
              rows = [december_summary_row, december_design_row, december_docs_row]\<rparr>
   \<and> list_all (\<lambda>(s, f). in_window s \<and> in_window f)
        (task_dates (ymd2ord 2068 12 10) (task_durations auth_project))
   \<and> \<not> in_window (ymd2ord 2068 12 10 + 30)
   \<and> finish_matches plan_columns december_design_row
   \<and> finish_matches plan_columns december_docs_row"
proof -
  have h1: "case plan_body constant_hash (ymd2ord 2025 11 3) auth_project of
       Inr generated \<Rightarrow>
         list_all (\<lambda>(s, f). in_window s \<and> in_window f)
           (task_dates (ymd2ord 2025 11 3) (task_durations auth_project))
     | Inl exception \<Rightarrow> in_window (ymd2ord 2025 11 3) \<and> in_window (ymd2ord 2025 11 3 + 30)"
    by (simp add: auth_plan_generated auth_dates_in_window)
  have generated: "list_all (finish_matches (columns auth_plan)) (non_summary_rows auth_plan)"
    using finish_is_start_plus_duration[OF h1]
    by (simp add: auth_plan_returned list_all_iff)
  have h2: "case plan_body constant_hash (ymd2ord 2025 11 3) unnamed_project of
       Inr generated \<Rightarrow>
         list_all (\<lambda>(s, f). in_window s \<and> in_window f)
           (task_dates (ymd2ord 2025 11 3) (task_durations unnamed_project))
     | Inl exception \<Rightarrow> in_window (ymd2ord 2025 11 3) \<and> in_window (ymd2ord 2025 11 3 + 30)"
    by (simp add: unnamed_project_raises auth_dates_in_window)
  have default: "finish_matches plan_columns sample_project_row"
    "finish_matches plan_columns planning_phase_row"
    using finish_is_start_plus_duration[OF h2]
    by (simp_all add: unnamed_project_default_plan default_plan_no_summary)
  have h3: "case plan_body constant_hash (ymd2ord 2068 12 10) auth_project of
       Inr generated \<Rightarrow>
         list_all (\<lambda>(s, f). in_window s \<and> in_window f)
           (task_dates (ymd2ord 2068 12 10) (task_durations auth_project))
     | Inl exception \<Rightarrow> in_window (ymd2ord 2068 12 10) \<and> in_window (ymd2ord 2068 12 10 + 30)"
    by (simp add: year_end_plan_generated year_end_dates)
  have december: "finish_matches plan_columns december_design_row"
    "finish_matches plan_columns december_docs_row"
    using finish_is_start_plus_duration[OF h3]
    by (simp_all add: year_end_plan_generated year_end_dates generate_project_plan_def)
  show ?thesis
    using generated default december auth_plan_generated auth_plan_returned auth_dates_in_window
      auth_plan_two_tasks unnamed_project_raises unnamed_project_default_plan
      default_plan_no_summary year_end_plan_generated year_end_dates
    by simp
qed

text \<open>
  Without the proviso the claim fails: a task of 5 days planned on 2068-12-30 finishes in
  2069, which is written \<open>01/04/69\<close> and read back as 1969-01-04.
\<close>

theorem finish_counterexample:
  "generate_project_plan constant_hash (ymd2ord 2068 12 30) auth_project
     = Inr \<lparr>columns = plan_columns,
            rows = [year_end_summary_row, year_end_design_row, year_end_docs_row]\<rparr>
   \<and> non_summary_rows \<lparr>columns = plan_columns,
          rows = [year_end_summary_row, year_end_design_row, year_end_docs_row]\<rparr>
     = [year_end_design_row, year_end_docs_row]
   \<and> row_start plan_columns year_end_design_row = Inr (ymd2ord 2068 12 30)
   \<and> row_duration plan_columns year_end_design_row = Inr 5
   \<and> row_finish plan_columns year_end_design_row = Inr (ymd2ord 1969 1 4)
   \<and> \<not> finish_matches plan_columns year_end_design_row"
  by code_simp

section \<open>Tasks start one after the other\<close>

lemma auth_starts_in_window:
  "list_all (\<lambda>(s, f). in_window s) (task_dates (ymd2ord 2025 11 3) (task_durations auth_project))"
  by code_simp

text \<open>
  Claim C9, as amended: in every plan generated from a task list in which every task has
  a name and every date the loop computes is a date of the years 1 to 9999 (so that the
  generation completes and its table, not the default plan, is returned), the start
  dates of the rows after the summary row, read back from the cells, increase strictly:
  each row starts at least \<open>max(1, d // 2)\<close> days after the row before it, of
  duration \<open>d\<close>, provided the start date of every task lies in the years 1969 to 2068.
\<close>

theorem starts_strictly_increase:
  assumes names: "all_named pinfo"
    and dates: "list_all valid_date (loop_dates today (task_durations pinfo))"
    and starts: "list_all (\<lambda>(s, f). in_window s) (task_dates today (task_durations pinfo))"
  shows "\<exists>df. plan_body hash today pinfo = Inr df
    \<and> generate_project_plan hash today pinfo = Inr df
    \<and> staggered (columns df) (non_summary_rows df)"
proof -
  have "\<exists>df. plan_body hash today pinfo = Inr df"
  proof (cases "task_durations pinfo")
    case Nil
    then show ?thesis using plan_body_no_tasks[of pinfo hash today] by (simp add: no_durations_iff)
  next
    case (Cons d ds)
    then have "in_window today" using starts by simp
    then show ?thesis using plan_body_succeeds[OF names in_window_valid dates] by blast
  qed
  then obtain df where body: "plan_body hash today pinfo = Inr df" by blast
  then have gen: "generate_project_plan hash today pinfo = Inr df"
    by (simp add: generate_project_plan_def)
  have "\<forall>(s, f) \<in> set (task_dates today (task_durations pinfo)). in_window s"
    using starts by (simp add: list_all_iff)
  from generated_rows_staggered[OF body this] body gen show ?thesis by blast
qed

theorem starts_strictly_increase_witness:
  "all_named auth_project
   \<and> list_all valid_date (loop_dates (ymd2ord 2025 11 3) (task_durations auth_project))
   \<and> list_all (\<lambda>(s, f). in_window s) (task_dates (ymd2ord 2025 11 3) (task_durations auth_project))
   \<and> generate_project_plan constant_hash (ymd2ord 2025 11 3) auth_project = Inr auth_plan
   \<and> length (non_summary_rows auth_plan) = 2
   \<and> staggered (columns auth_plan) (non_summary_rows auth_plan)"
proof -
  have "staggered (columns auth_plan) (non_summary_rows auth_plan)"
    using starts_strictly_increase[OF auth_project_completes(1,3) auth_starts_in_window, of constant_hash]
    by (simp add: auth_plan_generated)
  then show ?thesis
    using auth_project_completes auth_starts_in_window auth_plan_returned auth_plan_two_tasks
    by simp
qed

text \<open>
  Without the proviso on the years the claim fails: planned on 2068-12-31, the second
  task starts on 2069-01-02, which is written \<open>01/02/69\<close> and read back as 1969-01-02,
  before the first. Without the proviso on the names it fails as well: a task without a
  name makes the generation raise \<open>KeyError\<close>, and the two rows of the default plan
  returned in its place start on the same day.
\<close>

theorem starts_counterexample:
  "generate_project_plan constant_hash (ymd2ord 2068 12 31) auth_project
     = Inr \<lparr>columns = plan_columns,
            rows = [new_year_summary_row, new_year_design_row, new_year_docs_row]\<rparr>
   \<and> non_summary_rows \<lparr>columns = plan_columns,
          rows = [new_year_summary_row, new_year_design_row, new_year_docs_row]\<rparr>
     = [new_year_design_row, new_year_docs_row]
   \<and> row_start plan_columns new_year_design_row = Inr (ymd2ord 2068 12 31)
   \<and> row_start plan_columns new_year_docs_row = Inr (ymd2ord 1969 1 2)
   \<and> \<not> staggered plan_columns [new_year_design_row, new_year_docs_row]
   \<and> task_durations unnamed_project = [5, 4]
   \<and> list_all (\<lambda>(s, f). in_window s)
        (task_dates (ymd2ord 2025 11 3) (task_durations unnamed_project))
   \<and> plan_body constant_hash (ymd2ord 2025 11 3) unnamed_project = Inl KeyError
   \<and> generate_project_plan constant_hash (ymd2ord 2025 11 3) unnamed_project
       = Inr \<lparr>columns = plan_columns, rows = [sample_project_row, planning_phase_row]\<rparr>
   \<and> non_summary_rows \<lparr>columns = plan_columns, rows = [sample_project_row, planning_phase_row]\<rparr>
       = [sample_project_row, planning_phase_row]
   \<and> row_start plan_columns sample_project_row = Inr (ymd2ord 2025 11 3)
   \<and> row_start plan_columns planning_phase_row = Inr (ymd2ord 2025 11 3)
   \<and> \<not> staggered plan_columns [sample_project_row, planning_phase_row]"
  by code_simp

section \<open>The summary row\<close>

lemma read_back_parsed:
  assumes "map (\<lambda>r. row_get cols r col) rs = map (\<lambda>x. Inr (CStr (strftime (g x)))) xs"
    and "map (\<lambda>x. strptime (strftime (g x))) xs = map Inr ds"
  shows "map (\<lambda>r. and_then (row_get cols r col) cell_strptime) rs = map Inr ds"
proof -
  have "map (\<lambda>r. and_then (row_get cols r col) cell_strptime) rs
      = map (\<lambda>x. and_then x cell_strptime) (map (\<lambda>r. row_get cols r col) rs)"
    by (simp add: comp_def)
  then show ?thesis
    unfolding assms(1) using assms(2) by (simp add: comp_def cell_strptime_def)
qed

lemma parsed_dates_in_window:
  assumes "map (\<lambda>x. strptime (strftime (g x))) xs = map Inr ds" "d \<in> set ds"
  shows "in_window d"
  using map_Inr_member[OF assms] strptime_in_window by blast

lemma generated_summary_row:
  assumes body: "plan_body hash today pinfo = Inr df"
    and today: "valid_date today"
    and ne: "task_durations pinfo \<noteq> []"
  shows "\<exists>summary others ds ss fs.
          rows df = summary # others \<and> others \<noteq> [] \<and> non_summary_rows df = others
        \<and> map (row_duration (columns df)) others = map Inr ds
        \<and> map (row_start (columns df)) others = map Inr ss
        \<and> map (row_finish (columns df)) others = map Inr fs
        \<and> row_duration (columns df) summary = Inr (sum_list ds)
        \<and> row_start (columns df) summary = Inr (Min (set ss))
        \<and> row_finish (columns df) summary = Inr (Max (set fs))"
proof -
  define td where "td = task_dates today (task_durations pinfo)"
  from plan_body_rows[OF body ne today, folded td_def]
  obtain summary others ss fs where
    df: "df = \<lparr>columns = plan_columns, rows = summary # others\<rparr>" and
    D: "map (\<lambda>r. row_get plan_columns r ''Duration'') others
          = map (\<lambda>d. Inr (CStr (str_int d @ '' days''))) (task_durations pinfo)" and
    S: "map (\<lambda>r. row_get plan_columns r ''Start'') others = map (\<lambda>(s, f). Inr (CStr (strftime s))) td" and
    F: "map (\<lambda>r. row_get plan_columns r ''Finish'') others = map (\<lambda>(s, f). Inr (CStr (strftime f))) td" and
    ps: "map (\<lambda>(s, f). strptime (strftime s)) td = map Inr ss" and
    pf: "map (\<lambda>(s, f). strptime (strftime f)) td = map Inr fs" and
    sd: "row_get plan_columns summary ''Duration''
          = Inr (CStr (str_int (sum_list (task_durations pinfo)) @ '' days''))" and
    sst: "row_get plan_columns summary ''Start'' = Inr (CStr (strftime (Min (set ss))))" and
    sf: "row_get plan_columns summary ''Finish'' = Inr (CStr (strftime (Max (set fs))))" and
    L: "row_get plan_columns summary ''Outline Level'' = Inr (CInt 0)"
       "\<forall>r \<in> set others. row_get plan_columns r ''Outline Level'' \<noteq> Inr (CInt 0)"
    by blast
  have len: "length others = length (task_durations pinfo)"
    using arg_cong[OF D, of length] by simp
  then have one: "others \<noteq> []" using ne by auto
  have lss: "length ss = length others" "length fs = length others"
    using arg_cong[OF ps, of length] arg_cong[OF pf, of length] len
    by (simp_all add: td_def length_task_dates)
  then have nes: "ss \<noteq> []" "fs \<noteq> []" using one by auto
  have rd: "map (row_duration plan_columns) others = map Inr (task_durations pinfo)"
    using read_back_durations[OF D] .
  have rs: "map (row_start plan_columns) others = map Inr ss"
    unfolding row_start_def
    using read_back_parsed[of plan_columns "''Start''" others fst td ss] S ps
    by (simp add: case_prod_unfold)
  have rf: "map (row_finish plan_columns) others = map Inr fs"
    unfolding row_finish_def
    using read_back_parsed[of plan_columns "''Finish''" others snd td fs] F pf
    by (simp add: case_prod_unfold)
  have "Min (set ss) \<in> set ss" using nes by simp
  then have wmin: "in_window (Min (set ss))"
    using parsed_dates_in_window[of fst td ss] ps by (simp add: case_prod_unfold)
  have "Max (set fs) \<in> set fs" using nes by simp
  then have wmax: "in_window (Max (set fs))"
    using parsed_dates_in_window[of snd td fs] pf by (simp add: case_prod_unfold)
  have s1: "row_duration plan_columns summary = Inr (sum_list (task_durations pinfo))"
    by (simp add: row_duration_def sd duration_days_cell)
  have s2: "row_start plan_columns summary = Inr (Min (set ss))"
    by (simp add: row_start_def sst cell_strptime_def strptime_strftime[OF wmin])
  have s3: "row_finish plan_columns summary = Inr (Max (set fs))"
    by (simp add: row_finish_def sf cell_strptime_def strptime_strftime[OF wmax])
  have nsr: "non_summary_rows df = others"
    unfolding df by (rule non_summary_rows_generated[OF L])
  have "rows df = summary # others" "columns df = plan_columns" by (simp_all add: df)
  with one nsr rd rs rf s1 s2 s3 show ?thesis by (metis (no_types))
qed

lemma auth_plan_durations:
  "row_duration (columns auth_plan) (hd (rows auth_plan)) = Inr 9"
  "map (row_duration (columns auth_plan)) (tl (rows auth_plan)) = [Inr 5, Inr 4]"
  by code_simp+

text \<open>
  Claim C2, as amended: in every plan returned by \<open>generate_project_plan\<close> from a
  non-empty task list in which every task has a name and every date the loop computes is
  a date of the years 1 to 9999 (so that the generation completes and its table, not the
  default plan, is returned), the first row is the summary row, the only row of outline
  level 0; its duration is the sum of the durations of the other rows, its start the
  earliest of their starts and its finish the latest of their finishes, all read back
  from the cells.
\<close>

theorem summary_row_aggregates:
  assumes ne: "task_durations pinfo \<noteq> []"
    and names: "all_named pinfo"
    and today: "valid_date today"
    and dates: "list_all valid_date (loop_dates today (task_durations pinfo))"
  shows "\<exists>df. plan_body hash today pinfo = Inr df
    \<and> generate_project_plan hash today pinfo = Inr df
    \<and> (\<exists>summary others ds ss fs.
          rows df = summary # others \<and> others \<noteq> [] \<and> non_summary_rows df = others
        \<and> map (row_duration (columns df)) others = map Inr ds
        \<and> map (row_start (columns df)) others = map Inr ss
        \<and> map (row_finish (columns df)) others = map Inr fs
        \<and> row_duration (columns df) summary = Inr (sum_list ds)
        \<and> row_start (columns df) summary = Inr (Min (set ss))
        \<and> row_finish (columns df) summary = Inr (Max (set fs)))"
proof -
  from plan_body_succeeds[OF names today dates]
  obtain df where body: "plan_body hash today pinfo = Inr df" by blast
  then have gen: "generate_project_plan hash today pinfo = Inr df"
    by (simp add: generate_project_plan_def)
  from generated_summary_row[OF body today ne] body gen show ?thesis by blast
qed

theorem summary_row_aggregates_witness:
  "task_durations auth_project \<noteq> [] \<and> all_named auth_project \<and> valid_date (ymd2ord 2025 11 3)
   \<and> list_all valid_date (loop_dates (ymd2ord 2025 11 3) (task_durations auth_project))
   \<and> generate_project_plan constant_hash (ymd2ord 2025 11 3) auth_project = Inr auth_plan
   \<and> (\<exists>summary others ds ss fs.
          rows auth_plan = summary # others \<and> others \<noteq> [] \<and> non_summary_rows auth_plan = others
        \<and> map (row_duration (columns auth_plan)) others = map Inr ds
        \<and> map (row_start (columns auth_plan)) others = map Inr ss
        \<and> map (row_finish (columns auth_plan)) others = map Inr fs
        \<and> row_duration (columns auth_plan) summary = Inr (sum_list ds)
        \<and> row_start (columns auth_plan) summary = Inr (Min (set ss))
        \<and> row_finish (columns auth_plan) summary = Inr (Max (set fs)))
   \<and> row_duration (columns auth_plan) (hd (rows auth_plan)) = Inr 9
   \<and> map (row_duration (columns auth_plan)) (tl (rows auth_plan)) = [Inr 5, Inr 4]"
proof -
  have "\<exists>summary others ds ss fs.
          rows auth_plan = summary # others \<and> others \<noteq> [] \<and> non_summary_rows auth_plan = others
        \<and> map (row_duration (columns auth_plan)) others = map Inr ds
        \<and> map (row_start (columns auth_plan)) others = map Inr ss
        \<and> map (row_finish (columns auth_plan)) others = map Inr fs
        \<and> row_duration (columns auth_plan) summary = Inr (sum_list ds)
        \<and> row_start (columns auth_plan) summary = Inr (Min (set ss))
        \<and> row_finish (columns auth_plan) summary = Inr (Max (set fs))"
    using summary_row_aggregates[OF auth_project_completes(4,1,2,3), of constant_hash]
    by (simp add: auth_plan_generated)
  then show ?thesis
    using auth_project_completes auth_plan_returned auth_plan_durations by simp
qed

text \<open>
  Without the proviso the claim fails: a task without a name makes the generation raise
  \<open>KeyError\<close>, and the default plan is returned in place of the plan of the tasks. It
  has no row of outline level 0, and its first row has 30 days and finishes on
  2025-12-03 where its other row has 5 days and finishes on 2025-11-08.
\<close>

theorem summary_row_counterexample:
  "task_durations unnamed_project = [5, 4]
   \<and> plan_body constant_hash (ymd2ord 2025 11 3) unnamed_project = Inl KeyError
   \<and> generate_project_plan constant_hash (ymd2ord 2025 11 3) unnamed_project
       = Inr \<lparr>columns = plan_columns, rows = [sample_project_row, planning_phase_row]\<rparr>
   \<and> non_summary_rows \<lparr>columns = plan_columns, rows = [sample_project_row, planning_phase_row]\<rparr>
       = [sample_project_row, planning_phase_row]
   \<and> row_duration plan_columns sample_project_row = Inr 30
   \<and> row_duration plan_columns planning_phase_row = Inr 5
   \<and> row_finish plan_columns sample_project_row = Inr (ymd2ord 2025 12 3)
   \<and> row_finish plan_columns planning_phase_row = Inr (ymd2ord 2025 11 8)"
  by code_simp

section \<open>Shifting a plan\<close>

lemma zip_update_lookup:
  assumes "map_of (zip cols r) c = Some x"
  shows "\<exists>j. index_of c cols = Some j \<and> j < length r \<and> r ! j = x
           \<and> (\<forall>c'. map_of (zip cols (r[j := v])) c'
                    = (if c' = c then Some v else map_of (zip cols r) c'))"
  using assms
proof (induction cols arbitrary: r)
  case Nil
  then show ?case by simp
next
  case (Cons c0 cs)
  then obtain x0 xs where r: "r = x0 # xs" by (cases r) auto
  show ?case
  proof (cases "c = c0")
    case True
    with Cons.prems show ?thesis unfolding r by auto
  next
    case False
    with Cons.prems have "map_of (zip cs xs) c = Some x" unfolding r by simp
    from Cons.IH[OF this] obtain j where
      j: "index_of c cs = Some j" "j < length xs" "xs ! j = x"
         "\<forall>c'. map_of (zip cs (xs[j := v])) c' = (if c' = c then Some v else map_of (zip cs xs) c')"
      by blast
    show ?thesis
      using j False unfolding r by (intro exI[of _ "Suc j"]) simp
  qed
qed

lemma row_get_Inr_iff: "row_get cols r c = Inr x \<longleftrightarrow> map_of (zip cols r) c = Some x"
  by (simp add: row_get_def split: option.splits)

lemma row_set_get:
  assumes "row_get cols r c = Inr x"
  shows "row_get cols (row_set cols r c v) c' = (if c' = c then Inr v else row_get cols r c')"
proof -
  from zip_update_lookup[OF assms[unfolded row_get_Inr_iff], of v] obtain j where
    "index_of c cols = Some j"
    "\<forall>c'. map_of (zip cols (r[j := v])) c' = (if c' = c then Some v else map_of (zip cols r) c')"
    by blast
  then show ?thesis by (simp add: row_set_def row_get_def)
qed

lemma row_set_same:
  assumes "row_get cols r c = Inr v"
  shows "row_set cols r c v = r"
proof -
  from zip_update_lookup[OF assms[unfolded row_get_Inr_iff], of v] obtain j where
    j: "index_of c cols = Some j" "j < length r" "r ! j = v"
    by blast
  have "r[j := v] = r" using list_update_id[of r j] j(3) by simp
  then show ?thesis using j(1) by (simp add: row_set_def)
qed

lemma date_add_in_window: "in_window (d + n) \<Longrightarrow> date_add d n = Inr (d + n)"
  by (simp add: date_add_def in_window_valid)

lemma shift_row_shifts:
  assumes s: "row_start cols r = Inr s" and f: "row_finish cols r = Inr f"
    and w: "in_window (s + diff)" "in_window (f + diff)"
  shows "\<exists>r'. shift_row cols diff r = Inr r'
           \<and> row_get cols r' ''Start'' = Inr (CStr (strftime (s + diff)))
           \<and> row_get cols r' ''Finish'' = Inr (CStr (strftime (f + diff)))"
proof -
  from s obtain sc where sc: "row_get cols r ''Start'' = Inr sc"
    unfolding row_start_def by (auto simp: and_then_Inr_iff)
  from f obtain fc where fc: "row_get cols r ''Finish'' = Inr fc"
    unfolding row_finish_def by (auto simp: and_then_Inr_iff)
  define r1 where "r1 = row_set cols r ''Start'' (CStr (strftime (s + diff)))"
  define r2 where "r2 = row_set cols r1 ''Finish'' (CStr (strftime (f + diff)))"
  have g1: "row_get cols r1 ''Start'' = Inr (CStr (strftime (s + diff)))"
    "row_get cols r1 ''Finish'' = Inr fc"
    unfolding r1_def by (simp_all add: row_set_get[OF sc] fc)
  have g2: "row_get cols r2 ''Start'' = Inr (CStr (strftime (s + diff)))"
    "row_get cols r2 ''Finish'' = Inr (CStr (strftime (f + diff)))"
    unfolding r2_def by (simp_all add: row_set_get[OF g1(2)] g1(1))
  have "shift_row cols diff r = Inr r2"
    unfolding shift_row_def s[unfolded row_start_def] f[unfolded row_finish_def]
    by (simp add: date_add_in_window w r1_def r2_def)
  with g2 show ?thesis by blast
qed

lemma shift_row_fixed:
  assumes "row_get cols r ''Start'' = Inr (CStr (strftime a))"
    and "row_get cols r ''Finish'' = Inr (CStr (strftime b))"
    and "in_window a" "in_window b"
  shows "shift_row cols 0 r = Inr r"
  using assms
  by (simp add: shift_row_def cell_strptime_def strptime_strftime date_add_def in_window_valid
      row_set_same)

lemma shift_rows_shifts:
  assumes "map (\<lambda>r. (row_start cols r, row_finish cols r)) rs = map (\<lambda>(s, f). (Inr s, Inr f)) dates"
    and "\<forall>(s, f) \<in> set dates. in_window (s + diff) \<and> in_window (f + diff)"
  shows "\<exists>rs'. shift_rows cols diff rs = (None, rs')
           \<and> map (\<lambda>r. (row_get cols r ''Start'', row_get cols r ''Finish'')) rs'
             = map (\<lambda>(s, f). (Inr (CStr (strftime (s + diff))), Inr (CStr (strftime (f + diff))))) dates"
  using assms
proof (induction rs arbitrary: dates)
  case Nil
  then show ?case by simp
next
  case (Cons r rs)
  from Cons.prems(1) obtain s f dates' where dates: "dates = (s, f) # dates'"
    by (cases dates) auto
  from Cons.prems have
    r: "row_start cols r = Inr s" "row_finish cols r = Inr f" and
    w: "in_window (s + diff)" "in_window (f + diff)" and
    t: "map (\<lambda>r. (row_start cols r, row_finish cols r)) rs = map (\<lambda>(s, f). (Inr s, Inr f)) dates'"
       "\<forall>(s, f) \<in> set dates'. in_window (s + diff) \<and> in_window (f + diff)"
    unfolding dates by simp_all
  from shift_row_shifts[OF r w] obtain r' where
    r': "shift_row cols diff r = Inr r'"
        "row_get cols r' ''Start'' = Inr (CStr (strftime (s + diff)))"
        "row_get cols r' ''Finish'' = Inr (CStr (strftime (f + diff)))"
    by blast
  from Cons.IH[OF t] obtain rs' where
    rs': "shift_rows cols diff rs = (None, rs')"
         "map (\<lambda>r. (row_get cols r ''Start'', row_get cols r ''Finish'')) rs'
           = map (\<lambda>(s, f). (Inr (CStr (strftime (s + diff))), Inr (CStr (strftime (f + diff))))) dates'"
    by blast
  show ?case
    unfolding dates using r' rs' by simp
qed

lemma shift_rows_fixed:
  assumes "map (\<lambda>r. (row_get cols r ''Start'', row_get cols r ''Finish'')) rs
             = map (\<lambda>(a, b). (Inr (CStr (strftime a)), Inr (CStr (strftime b)))) dates"
    and "\<forall>(a, b) \<in> set dates. in_window a \<and> in_window b"
  shows "shift_rows cols 0 rs = (None, rs)"
  using assms
proof (induction rs arbitrary: dates)
  case Nil
  then show ?case by simp
next
  case (Cons r rs)
  from Cons.prems(1) obtain a b dates' where dates: "dates = (a, b) # dates'"
    by (cases dates) auto
  from Cons.prems have
    r: "row_get cols r ''Start'' = Inr (CStr (strftime a))"
       "row_get cols r ''Finish'' = Inr (CStr (strftime b))" "in_window a" "in_window b" and
    t: "map (\<lambda>r. (row_get cols r ''Start'', row_get cols r ''Finish'')) rs
          = map (\<lambda>(a, b). (Inr (CStr (strftime a)), Inr (CStr (strftime b)))) dates'"
       "\<forall>(a, b) \<in> set dates'. in_window a \<and> in_window b"
    unfolding dates by simp_all
  show ?case
    using shift_row_fixed[OF r] Cons.IH[OF t] by simp
qed

lemma read_back_shifted:
  assumes "map (\<lambda>r. (row_get cols r ''Start'', row_get cols r ''Finish'')) rs
             = map (\<lambda>(a, b). (Inr (CStr (strftime a)), Inr (CStr (strftime b)))) dates"
    and "\<forall>(a, b) \<in> set dates. in_window a \<and> in_window b"
  shows "map (\<lambda>r. (row_start cols r, row_finish cols r)) rs = map (\<lambda>(a, b). (Inr a, Inr b)) dates"
  using assms
proof (induction rs arbitrary: dates)
  case Nil
  then show ?case by simp
next
  case (Cons r rs)
  from Cons.prems(1) obtain a b dates' where dates: "dates = (a, b) # dates'"
    by (cases dates) auto
  from Cons.prems have
    r: "row_get cols r ''Start'' = Inr (CStr (strftime a))"
       "row_get cols r ''Finish'' = Inr (CStr (strftime b))" "in_window a" "in_window b" and
    t: "map (\<lambda>r. (row_get cols r ''Start'', row_get cols r ''Finish'')) rs
          = map (\<lambda>(a, b). (Inr (CStr (strftime a)), Inr (CStr (strftime b)))) dates'"
       "\<forall>(a, b) \<in> set dates'. in_window a \<and> in_window b"
    unfolding dates by simp_all
  show ?case
    unfolding dates using Cons.IH[OF t] r
    by (simp add: row_start_def row_finish_def cell_strptime_def strptime_strftime)
qed

lemma row_span_parsed:
  assumes "map (\<lambda>r. (row_start cols r, row_finish cols r)) rs = map (\<lambda>(s, f). (Inr s, Inr f)) dates"
  shows "map (row_span cols) rs = map (\<lambda>(s, f). Inr (f - s)) dates"
  using assms
proof (induction rs arbitrary: dates)
  case Nil
  then show ?case by simp
next
  case (Cons r rs)
  from Cons.prems(1) obtain s f dates' where dates: "dates = (s, f) # dates'"
    by (cases dates) auto
  from Cons.prems have
    r: "row_start cols r = Inr s" "row_finish cols r = Inr f" and
    t: "map (\<lambda>r. (row_start cols r, row_finish cols r)) rs = map (\<lambda>(s, f). (Inr s, Inr f)) dates'"
    unfolding dates by simp_all
  show ?case
    unfolding dates using Cons.IH[OF t] r by (simp add: row_span_def date_sub_def)
qed

text \<open>
  Claim C3, as amended: for every plan in which the \<open>Start\<close> and the \<open>Finish\<close> of
  every row parse under the fixed date format, and whose shifted dates all lie in the
  years 1969 to 2068, \<open>update_plan_dates\<close> moves the start and the finish of every row
  by the number of days from the first row's start to the new start date; finish minus
  start is the same in every row as before; and a second call with the same date returns
  the same table.
\<close>

theorem update_plan_dates_shifts:
  assumes parse: "map (\<lambda>r. (row_start (columns df) r, row_finish (columns df) r)) (rows df)
                    = map (\<lambda>(s, f). (Inr s, Inr f)) ((s0, f0) # dates)"
    and window: "\<forall>(s, f) \<in> set ((s0, f0) # dates).
                   in_window (s + (new_start_date - s0)) \<and> in_window (f + (new_start_date - s0))"
  shows "\<exists>df'. update_plan_dates new_start_date df = (None, df')
     \<and> map (\<lambda>r. (row_start (columns df') r, row_finish (columns df') r)) (rows df')
         = map (\<lambda>(s, f). (Inr (s + (new_start_date - s0)), Inr (f + (new_start_date - s0))))
             ((s0, f0) # dates)
     \<and> map (row_span (columns df')) (rows df') = map (row_span (columns df)) (rows df)
     \<and> update_plan_dates new_start_date df' = (None, df')"
proof -
  define diff where "diff = new_start_date - s0"
  define cols where "cols = columns df"
  define shifted where "shifted = map (\<lambda>(s, f). (s + diff, f + diff)) ((s0, f0) # dates)"
  note parse' = parse[folded cols_def] and window' = window[folded diff_def]
  from parse' obtain r0 rest where rows: "rows df = r0 # rest" by (cases "rows df") auto
  have r0: "row_start cols r0 = Inr s0" using parse' unfolding rows by simp
  then have "cols \<noteq> []" by (auto simp: row_start_def row_get_def)
  then have ne: "\<not> df_empty df" by (simp add: df_empty_def rows cols_def)
  from shift_rows_shifts[OF parse' window'] obtain rs' where
    sh: "shift_rows cols diff (rows df) = (None, rs')" and
    cells: "map (\<lambda>r. (row_get cols r ''Start'', row_get cols r ''Finish'')) rs'
             = map (\<lambda>(s, f). (Inr (CStr (strftime (s + diff))), Inr (CStr (strftime (f + diff)))))
                 ((s0, f0) # dates)"
    by blast
  define df' where "df' = df\<lparr>rows := rs'\<rparr>"
  have first: "update_plan_dates new_start_date df = (None, df')"
    using ne r0 sh
    by (simp add: update_plan_dates_def rows row_start_def cols_def date_sub_def diff_def df'_def)
  have cells': "map (\<lambda>r. (row_get cols r ''Start'', row_get cols r ''Finish'')) rs'
             = map (\<lambda>(a, b). (Inr (CStr (strftime a)), Inr (CStr (strftime b)))) shifted"
    unfolding cells shifted_def by (simp add: case_prod_unfold)
  have wsh: "\<forall>(a, b) \<in> set shifted. in_window a \<and> in_window b"
    using window' unfolding shifted_def by auto
  have rb: "map (\<lambda>r. (row_start cols r, row_finish cols r)) rs' = map (\<lambda>(a, b). (Inr a, Inr b)) shifted"
    using read_back_shifted[OF cells' wsh] .
  have moved: "map (\<lambda>r. (row_start (columns df') r, row_finish (columns df') r)) (rows df')
         = map (\<lambda>(s, f). (Inr (s + diff), Inr (f + diff))) ((s0, f0) # dates)"
    using rb unfolding shifted_def df'_def cols_def by (simp add: case_prod_unfold)
  have span: "map (row_span (columns df')) (rows df') = map (row_span (columns df)) (rows df)"
    using row_span_parsed[OF rb] row_span_parsed[OF parse']
    unfolding shifted_def df'_def cols_def by (simp add: case_prod_unfold)
  obtain r0' rest' where rows': "rs' = r0' # rest'"
    using rb unfolding shifted_def by (cases rs') auto
  have r0': "row_start cols r0' = Inr new_start_date"
    using rb unfolding rows' shifted_def diff_def by simp
  have ne': "\<not> df_empty df'" using \<open>cols \<noteq> []\<close> by (simp add: df_empty_def df'_def rows' cols_def)
  have "shift_rows cols 0 rs' = (None, rs')" using shift_rows_fixed[OF cells' wsh] .
  then have second: "update_plan_dates new_start_date df' = (None, df')"
    using ne' r0'
    by (simp add: update_plan_dates_def row_start_def cols_def date_sub_def df'_def rows')
  show ?thesis
    using first moved span second unfolding diff_def by blast
qed

lemma auth_plan_parses:
  "map (\<lambda>r. (row_start (columns auth_plan) r, row_finish (columns auth_plan) r)) (rows auth_plan)
     = map (\<lambda>(s, f). (Inr s, Inr f))
         ((ymd2ord 2025 11 3, ymd2ord 2025 11 9)
          # [(ymd2ord 2025 11 3, ymd2ord 2025 11 8), (ymd2ord 2025 11 5, ymd2ord 2025 11 9)])"
  by code_simp

lemma auth_plan_shift_in_window:
  "\<forall>(s, f) \<in> set ((ymd2ord 2025 11 3, ymd2ord 2025 11 9)
          # [(ymd2ord 2025 11 3, ymd2ord 2025 11 8), (ymd2ord 2025 11 5, ymd2ord 2025 11 9)]).
     in_window (s + (ymd2ord 2025 12 1 - ymd2ord 2025 11 3))
     \<and> in_window (f + (ymd2ord 2025 12 1 - ymd2ord 2025 11 3))"
  by code_simp

theorem update_plan_dates_shifts_witness:
  "map (\<lambda>r. (row_start (columns auth_plan) r, row_finish (columns auth_plan) r)) (rows auth_plan)
     = [(Inr (ymd2ord 2025 11 3), Inr (ymd2ord 2025 11 9)),
        (Inr (ymd2ord 2025 11 3), Inr (ymd2ord 2025 11 8)),
        (Inr (ymd2ord 2025 11 5), Inr (ymd2ord 2025 11 9))]
   \<and> fst (update_plan_dates (ymd2ord 2025 12 1) auth_plan) = None
   \<and> map (\<lambda>r. (row_start plan_columns r, row_finish plan_columns r))
        (rows (snd (update_plan_dates (ymd2ord 2025 12 1) auth_plan)))
     = [(Inr (ymd2ord 2025 12 1), Inr (ymd2ord 2025 12 7)),
        (Inr (ymd2ord 2025 12 1), Inr (ymd2ord 2025 12 6)),
        (Inr (ymd2ord 2025 12 3), Inr (ymd2ord 2025 12 7))]
   \<and> update_plan_dates (ymd2ord 2025 12 1) (snd (update_plan_dates (ymd2ord 2025 12 1) auth_plan))
     = (None, snd (update_plan_dates (ymd2ord 2025 12 1) auth_plan))"
proof -
  from update_plan_dates_shifts[OF auth_plan_parses auth_plan_shift_in_window]
  obtain df' where
    a: "update_plan_dates (ymd2ord 2025 12 1) auth_plan = (None, df')" and
    b: "map (\<lambda>r. (row_start (columns df') r, row_finish (columns df') r)) (rows df')
         = map (\<lambda>(s, f). (Inr (s + (ymd2ord 2025 12 1 - ymd2ord 2025 11 3)),
                           Inr (f + (ymd2ord 2025 12 1 - ymd2ord 2025 11 3))))
             ((ymd2ord 2025 11 3, ymd2ord 2025 11 9)
              # [(ymd2ord 2025 11 3, ymd2ord 2025 11 8), (ymd2ord 2025 11 5, ymd2ord 2025 11 9)])" and
    c: "update_plan_dates (ymd2ord 2025 12 1) df' = (None, df')"
    by blast
  have cols: "columns df' = plan_columns"
    using a by (auto simp: update_plan_dates_def auth_plan_def split: if_splits sum.splits prod.splits)
  have days: "ymd2ord 2025 11 3 = 739558" "ymd2ord 2025 11 5 = 739560" "ymd2ord 2025 11 8 = 739563"
    "ymd2ord 2025 11 9 = 739564" "ymd2ord 2025 12 1 = 739586" "ymd2ord 2025 12 3 = 739588"
    "ymd2ord 2025 12 6 = 739591" "ymd2ord 2025 12 7 = 739592"
    by code_simp+
  show ?thesis
    using auth_plan_parses a b c unfolding cols days by simp
qed

text \<open>
  Without the proviso the claim fails: a row from 2068-12-24 to 2068-12-29 moved to start
  on 2068-12-30 gets the finish \<open>01/04/69\<close>, read back as 1969-01-04; finish minus start
  was 5 days and is now 36520 days the other way.
\<close>

theorem update_plan_dates_counterexample:
  "row_start [''Name'', ''Start'', ''Finish'']
      [CStr ''Design API'', CStr ''Mon 12/24/68'', CStr ''Sat 12/29/68''] = Inr (ymd2ord 2068 12 24)
   \<and> update_plan_dates (ymd2ord 2068 12 30)
       \<lparr>columns = [''Name'', ''Start'', ''Finish''],
        rows = [[CStr ''Design API'', CStr ''Mon 12/24/68'', CStr ''Sat 12/29/68'']]\<rparr>
     = (None, \<lparr>columns = [''Name'', ''Start'', ''Finish''],
               rows = [[CStr ''Design API'', CStr ''Sun 12/30/68'', CStr ''Fri 01/04/69'']]\<rparr>)
   \<and> row_span [''Name'', ''Start'', ''Finish'']
        [CStr ''Design API'', CStr ''Mon 12/24/68'', CStr ''Sat 12/29/68''] = Inr 5
   \<and> row_span [''Name'', ''Start'', ''Finish'']
        [CStr ''Design API'', CStr ''Sun 12/30/68'', CStr ''Fri 01/04/69''] = Inr (- 36520)
   \<and> row_finish [''Name'', ''Start'', ''Finish'']
        [CStr ''Design API'', CStr ''Sun 12/30/68'', CStr ''Fri 01/04/69''] = Inr (ymd2ord 1969 1 4)"
  by code_simp

end
